theory Spec2Isabelle
  imports Main "HOL-Library.Sublist" "HOL-Library.AList"
begin

section \<open>SGMADocumentHunter: the resolution pipeline of document\_hunter.py\<close>

text \<open>
  The class \<^verbatim>\<open>SGMADocumentHunter\<close> drives a browser page through three portal pages
  (the listing table, a basin's detail page, a GSP sub-page) and queries static HTML
  snapshots of them. The snapshots are modelled as trees, the queries as list functions
  over the tree's descendants in document order, the page as a record of what the portal
  answers, and every exception of the Python as the \<open>Inl\<close> branch of a sum.

  Strings are \<^typ>\<open>string\<close>: lists of 8-bit characters, read as code points 0 to 255.
\<close>

subsection \<open>Python string operations\<close>

text \<open>\<^verbatim>\<open>str.lower()\<close> on code points below 256: A-Z, and the Latin-1 capitals except the
  multiplication sign, move up by 32.\<close>

definition lower_char :: "char \<Rightarrow> char" where
  "lower_char c =
     (let n = (of_char c :: nat) in
      if (65 \<le> n \<and> n \<le> 90) \<or> (192 \<le> n \<and> n \<le> 222 \<and> n \<noteq> 215)
      then char_of (n + 32) else c)"

definition lower :: "string \<Rightarrow> string" where
  "lower s = map lower_char s"

text \<open>\<^verbatim>\<open>sub in s\<close>: \<open>sub\<close> occurs in \<open>s\<close> as a contiguous substring.\<close>

fun str_in :: "string \<Rightarrow> string \<Rightarrow> bool" where
  "str_in sub [] = (sub = [])"
| "str_in sub (c # cs) = (prefix sub (c # cs) \<or> str_in sub cs)"

text \<open>\<^verbatim>\<open>s.endswith(suf)\<close>.\<close>

definition endswith :: "string \<Rightarrow> string \<Rightarrow> bool" where
  "endswith s suf = suffix suf s"

text \<open>\<^verbatim>\<open>str.isspace\<close> on one character below 256, and \<^verbatim>\<open>str.strip()\<close>.\<close>

definition is_space :: "char \<Rightarrow> bool" where
  "is_space c =
     (let n = (of_char c :: nat) in
      (9 \<le> n \<and> n \<le> 13) \<or> (28 \<le> n \<and> n \<le> 32) \<or> n = 133 \<or> n = 160)"

definition strip :: "string \<Rightarrow> string" where
  "strip s = rev (dropWhile is_space (rev (dropWhile is_space s)))"

text \<open>The class \<^verbatim>\<open>\d\<close> of \<^verbatim>\<open>re\<close> on code points below 256 is 0-9.\<close>

definition is_digit :: "char \<Rightarrow> bool" where
  "is_digit c = (c \<in> set ''0123456789'')"

definition digit_val :: "char \<Rightarrow> int" where
  "digit_val c = int (of_char c) - 48"

text \<open>\<^verbatim>\<open>re.search(r'\d{4}', s)\<close>: the leftmost window of four digits, as
  \<^verbatim>\<open>year_match.group(0)\<close>, or \<open>None\<close>.\<close>

fun re_search_d4 :: "string \<Rightarrow> string option" where
  "re_search_d4 (a # b # c # d # rest) =
     (if is_digit a \<and> is_digit b \<and> is_digit c \<and> is_digit d then Some [a, b, c, d]
      else re_search_d4 (b # c # d # rest))"
| "re_search_d4 s = None"

text \<open>\<^verbatim>\<open>int(s)\<close> on a string of decimal digits.\<close>

definition py_int :: "string \<Rightarrow> int" where
  "py_int s = foldl (\<lambda>acc c. 10 * acc + digit_val c) 0 s"

text \<open>\<^verbatim>\<open>str(n)\<close> on an integer, as the f-string \<^verbatim>\<open>f"WY_{year}"\<close> formats it.\<close>

fun str_nat :: "nat \<Rightarrow> string" where
  "str_nat n = (if n < 10 then [char_of (48 + n)]
                else str_nat (n div 10) @ [char_of (48 + n mod 10)])"

definition py_str :: "int \<Rightarrow> string" where
  "py_str i = (if i < 0 then CHR ''-'' # str_nat (nat (- i)) else str_nat (nat i))"

subsection \<open>The parsed HTML tree and the BeautifulSoup queries used\<close>

text \<open>
  A node is a text node (a plain \<^verbatim>\<open>NavigableString\<close>), a special string (a \<^verbatim>\<open>Comment\<close>, or
  another subclass of \<^verbatim>\<open>NavigableString\<close> such as a doctype or a declaration), or a tag
  with its name, its attribute dictionary and its children. A special string is a string
  for \<^verbatim>\<open>.string\<close> and for \<^verbatim>\<open>find(string=...)\<close>, and is left out by \<^verbatim>\<open>get_text\<close>.
  A parsed document (\<^verbatim>\<open>BeautifulSoup(content, 'html.parser')\<close>) is the tag named
  \<^verbatim>\<open>[document]\<close> over the top-level nodes.
\<close>

datatype node =
  Text string
| Comment string
| Elem string "(string \<times> string) list" "node list"

definition soup :: "node list \<Rightarrow> node" where
  "soup cs = Elem ''[document]'' [] cs"

text \<open>All nodes below a node, in document order (\<^verbatim>\<open>Tag.descendants\<close>).\<close>

fun descendants :: "node \<Rightarrow> node list" where
  "descendants (Text s) = []"
| "descendants (Comment s) = []"
| "descendants (Elem n a cs) = concat (map (\<lambda>c. c # descendants c) cs)"

text \<open>The same walk, each node paired with its ancestors, the nearest first
  (\<^verbatim>\<open>PageElement.parents\<close>); \<open>anc\<close> holds the ancestors of the node walked.\<close>

fun walk :: "node list \<Rightarrow> node \<Rightarrow> (node \<times> node list) list" where
  "walk anc (Text s) = []"
| "walk anc (Comment s) = []"
| "walk anc (Elem n a cs) =
     concat (map (\<lambda>c. (c, Elem n a cs # anc) # walk (Elem n a cs # anc) c) cs)"

fun is_named :: "string list \<Rightarrow> node \<Rightarrow> bool" where
  "is_named names (Text s) = False"
| "is_named names (Comment s) = False"
| "is_named names (Elem n a cs) = (n \<in> set names)"

text \<open>\<^verbatim>\<open>tag.get(key)\<close>: the attribute's value, or \<open>None\<close>.\<close>

fun get_attr :: "node \<Rightarrow> string \<Rightarrow> string option" where
  "get_attr (Text s) k = None"
| "get_attr (Comment s) k = None"
| "get_attr (Elem n a cs) k = map_of a k"

text \<open>\<^verbatim>\<open>tag.find_all(names)\<close> and \<^verbatim>\<open>tag.find(name)\<close> (the first of \<^verbatim>\<open>find_all\<close>).\<close>

definition find_all :: "string list \<Rightarrow> node \<Rightarrow> node list" where
  "find_all names n = filter (is_named names) (descendants n)"

definition find_tag :: "string \<Rightarrow> node \<Rightarrow> node option" where
  "find_tag name n = List.find (is_named [name]) (descendants n)"

text \<open>
  \<^verbatim>\<open>Tag.string\<close>: the string of a tag whose only child is a string (a special one
  included), or whose only child is a tag that has a \<^verbatim>\<open>.string\<close>; \<open>None\<close> for a tag with no
  child or with several children.
\<close>

fun tag_string :: "node \<Rightarrow> string option" where
  "tag_string (Text s) = Some s"
| "tag_string (Comment s) = Some s"
| "tag_string (Elem n a []) = None"
| "tag_string (Elem n a [c]) = tag_string c"
| "tag_string (Elem n a (c # d # cs)) = None"

text \<open>\<^verbatim>\<open>tag.get_text()\<close>: the text nodes below the tag, concatenated, the special strings
  left out; with \<^verbatim>\<open>strip=True\<close> each one is stripped and the empty ones are dropped.\<close>

fun strings :: "node \<Rightarrow> string list" where
  "strings (Text s) = [s]"
| "strings (Comment s) = []"
| "strings (Elem n a cs) = concat (map strings cs)"

definition get_text :: "node \<Rightarrow> string" where
  "get_text n = concat (strings n)"

definition get_text_strip :: "node \<Rightarrow> string" where
  "get_text_strip n = concat (filter (\<lambda>s. s \<noteq> []) (map strip (strings n)))"

text \<open>
  \<^verbatim>\<open>tag.find("a", string=f)\<close>: the first \<^verbatim>\<open>a\<close> tag for which \<open>f\<close> accepts the tag's
  \<^verbatim>\<open>.string\<close> (BeautifulSoup hands \<open>f\<close> that value, \<open>None\<close> included).
  \<^verbatim>\<open>tag.find("a", href=f)\<close>: the first \<^verbatim>\<open>a\<close> tag for which \<open>f\<close> accepts the value of the
  attribute \<^verbatim>\<open>href\<close>, \<open>None\<close> when the tag has none.
  \<^verbatim>\<open>tag.find(string=f)\<close>: the first string, special or not, that \<open>f\<close> accepts, here with its
  ancestors.
  \<^verbatim>\<open>text.find_parent(name)\<close>: the nearest ancestor with that name.
\<close>

definition find_a_string :: "(string option \<Rightarrow> bool) \<Rightarrow> node \<Rightarrow> node option" where
  "find_a_string f n = List.find (\<lambda>d. is_named [''a''] d \<and> f (tag_string d)) (descendants n)"

definition find_a_href :: "(string option \<Rightarrow> bool) \<Rightarrow> node \<Rightarrow> node option" where
  "find_a_href f n = List.find (\<lambda>d. is_named [''a''] d \<and> f (get_attr d ''href'')) (descendants n)"

fun is_text :: "(string \<Rightarrow> bool) \<Rightarrow> node \<Rightarrow> bool" where
  "is_text f (Text s) = f s"
| "is_text f (Comment s) = f s"
| "is_text f (Elem n a cs) = False"

definition find_string :: "(string \<Rightarrow> bool) \<Rightarrow> node \<Rightarrow> (node \<times> node list) option" where
  "find_string f n = List.find (\<lambda>(d, anc). is_text f d) (walk [] n)"

definition find_parent :: "string \<Rightarrow> node list \<Rightarrow> node option" where
  "find_parent name anc = List.find (is_named [name]) anc"

subsection \<open>The page, its failures and the result dictionary\<close>

text \<open>
  The exceptions the code can meet: those of the page driver (\<open>Timeout\<close> of a bounded
  wait, \<open>PageError\<close> for any other failure of a page call) and those Python raises itself.
\<close>

datatype error = Timeout | PageError | AttributeError | KeyError | StopIteration

text \<open>
  What the portal answers to the page calls of one query, each an HTML snapshot already
  parsed, or the exception the calls raised:
  \<^item> \<open>listing\<close>: \<^verbatim>\<open>goto(BASE_URL)\<close>, \<^verbatim>\<open>wait_for_selector("table", timeout=15000)\<close>,
    \<^verbatim>\<open>content()\<close> (lines 75 to 80);
  \<^item> \<open>filtered identifier\<close>: filling the search box, pressing Enter, the fixed wait and
    \<^verbatim>\<open>content()\<close> (lines 94 to 102);
  \<^item> \<open>detail url\<close>: \<^verbatim>\<open>content()\<close> after the load of lines 160 to 164, whose own exceptions
    the code catches and logs;
  \<^item> \<open>subpage url\<close>: \<^verbatim>\<open>goto(sub_page_url)\<close>, \<^verbatim>\<open>content()\<close> and the parse inside the
    \<^verbatim>\<open>try\<close> of lines 216 to 220; \<open>Inl\<close> is a navigation or parse failure of the hop.
\<close>

record portal =
  listing :: "error + node"
  filtered :: "string \<Rightarrow> error + node"
  detail :: "string \<Rightarrow> error + node"
  subpage :: "string \<Rightarrow> error + node"

text \<open>The page actions a run performs, in order; every function that drives the page
  returns them beside its result.\<close>

datatype action = Goto string | Search string | Close

text \<open>The values of the result dictionary, and the dictionary in insertion order.\<close>

datatype pyval = PyNone | PyStr string | PyInt int

type_synonym dict = "(string \<times> pyval) list"

definition BASE_URL :: string where
  "BASE_URL = ''https://sgma.water.ca.gov/portal/gspar/submitted''"

definition DOMAIN :: string where
  "DOMAIN = ''https://sgma.water.ca.gov''"

subsection \<open>\_find\_basin\_page\<close>

text \<open>Lines 81 to 83: the header row of the first table and its lower-cased cell texts.
  A missing table or row is Python's \<^verbatim>\<open>AttributeError\<close> on \<^verbatim>\<open>None\<close>.\<close>

definition read_headers :: "node \<Rightarrow> error + string list" where
  "read_headers sp =
     (case find_tag ''table'' sp of
        None \<Rightarrow> Inl AttributeError
      | Some table \<Rightarrow>
          (case (case find_tag ''thead'' table of
                   Some thead \<Rightarrow> find_tag ''tr'' thead
                 | None \<Rightarrow> find_tag ''tr'' table) of
             None \<Rightarrow> Inl AttributeError
           | Some header_row \<Rightarrow>
               Inr (map (\<lambda>th. lower (get_text_strip th)) (find_all [''th'', ''td''] header_row))))"

text \<open>\<^verbatim>\<open>next(i for i, h in enumerate(headers) if kw in h)\<close>: the first index whose header
  contains the keyword; \<^verbatim>\<open>StopIteration\<close> when there is none.\<close>

fun next_index :: "string \<Rightarrow> string list \<Rightarrow> error + nat" where
  "next_index kw [] = Inl StopIteration"
| "next_index kw (h # hs) =
     (if str_in kw h then Inr 0
      else (case next_index kw hs of Inl e \<Rightarrow> Inl e | Inr i \<Rightarrow> Inr (Suc i)))"

text \<open>Lines 86 and 87: both indices, the basin one first.\<close>

definition map_headers :: "string list \<Rightarrow> error + (nat \<times> nat)" where
  "map_headers headers =
     (case next_index ''basin'' headers of
        Inl e \<Rightarrow> Inl e
      | Inr basin_idx \<Rightarrow>
          (case next_index ''year'' headers of
             Inl e \<Rightarrow> Inl e
           | Inr year_idx \<Rightarrow> Inr (basin_idx, year_idx)))"

text \<open>The loop state: \<^verbatim>\<open>best_url\<close>, \<^verbatim>\<open>max_year\<close>, \<^verbatim>\<open>found_name\<close>.\<close>

type_synonym best = "string option \<times> int \<times> string"

text \<open>Lines 112 to 148: the body of the loop on one row. Nothing inside its \<^verbatim>\<open>try\<close> can
  raise here (the match object and the \<^verbatim>\<open>href\<close> are tested before use), so its
  \<^verbatim>\<open>except\<close> has no branch.\<close>

definition scan_row :: "string \<Rightarrow> nat \<Rightarrow> nat \<Rightarrow> best \<Rightarrow> node \<Rightarrow> best" where
  "scan_row identifier basin_idx year_idx bst row =
     (let cols = find_all [''td''] row in
      if length cols \<le> max basin_idx year_idx then bst
      else
        let row_basin_text = get_text_strip (cols ! basin_idx);
            row_year_text = get_text_strip (cols ! year_idx)
        in
        if str_in (lower identifier) (lower row_basin_text) then
          (case re_search_d4 row_year_text of
             None \<Rightarrow> bst
           | Some year_match \<Rightarrow>
               let year = py_int year_match in
               (case find_tag ''a'' (cols ! basin_idx) of
                  None \<Rightarrow> bst
                | Some link_tag \<Rightarrow>
                    (case get_attr link_tag ''href'' of
                       None \<Rightarrow> bst
                     | Some href \<Rightarrow>
                         if href = [] then bst
                         else (case bst of (best_url, max_year, found_name) \<Rightarrow>
                                 if year \<ge> max_year
                                 then (Some (DOMAIN @ href), year, row_basin_text)
                                 else bst))))
        else bst)"

text \<open>Lines 111 to 150: the loop over the rows.\<close>

fun scan_rows :: "string \<Rightarrow> nat \<Rightarrow> nat \<Rightarrow> best \<Rightarrow> node list \<Rightarrow> best" where
  "scan_rows identifier basin_idx year_idx bst [] = bst"
| "scan_rows identifier basin_idx year_idx bst (row # rows) =
     scan_rows identifier basin_idx year_idx (scan_row identifier basin_idx year_idx bst row) rows"

text \<open>Line 103: every \<^verbatim>\<open>tr\<close> of the first table but the first.\<close>

definition read_rows :: "node \<Rightarrow> error + node list" where
  "read_rows sp =
     (case find_tag ''table'' sp of
        None \<Rightarrow> Inl AttributeError
      | Some table \<Rightarrow> Inr (drop 1 (find_all [''tr''] table)))"

definition find_basin_page :: "portal \<Rightarrow> string \<Rightarrow> action list \<times> (error + best)" where
  "find_basin_page p identifier =
     (case listing p of
        Inl e \<Rightarrow> ([Goto BASE_URL], Inl e)
      | Inr sp \<Rightarrow>
          (case read_headers sp of
             Inl e \<Rightarrow> ([Goto BASE_URL], Inl e)
           | Inr headers \<Rightarrow>
               (case map_headers headers of
                  Inl e \<Rightarrow>
                    (if e = StopIteration then ([Goto BASE_URL], Inr (None, 0, []))
                     else ([Goto BASE_URL], Inl e))
                | Inr (basin_idx, year_idx) \<Rightarrow>
                    (case filtered p identifier of
                       Inl e \<Rightarrow> ([Goto BASE_URL, Search identifier], Inl e)
                     | Inr sp2 \<Rightarrow>
                         (case read_rows sp2 of
                            Inl e \<Rightarrow> ([Goto BASE_URL, Search identifier], Inl e)
                          | Inr rows \<Rightarrow>
                              ([Goto BASE_URL, Search identifier],
                               Inr (scan_rows identifier basin_idx year_idx (None, 0, []) rows)))))))"

subsection \<open>\_harvest\_pdfs\<close>

text \<open>The three filters handed to \<^verbatim>\<open>find\<close> (lines 180, 192 and 200, 209, 227); Python's
  \<^verbatim>\<open>x and ...\<close> rejects \<open>None\<close> and the empty string.\<close>

definition wy_pdf_text :: "string \<Rightarrow> string option \<Rightarrow> bool" where
  "wy_pdf_text target_pattern text =
     (case text of None \<Rightarrow> False
      | Some t \<Rightarrow> t \<noteq> [] \<and> str_in target_pattern t \<and> str_in ''.pdf'' (lower t))"

definition annual_header_text :: "string \<Rightarrow> bool" where
  "annual_header_text t = (t \<noteq> [] \<and> str_in ''Annual Report PDF'' t)"

definition document_href :: "string option \<Rightarrow> bool" where
  "document_href x = (case x of None \<Rightarrow> False | Some h \<Rightarrow> h \<noteq> [] \<and> str_in ''/document/'' h)"

definition gsp_text :: "string option \<Rightarrow> bool" where
  "gsp_text text =
     (case text of None \<Rightarrow> False | Some t \<Rightarrow> t \<noteq> [] \<and> str_in ''GSP'' t \<and> str_in ''20'' t)"

definition pdf_href :: "string option \<Rightarrow> bool" where
  "pdf_href x = (case x of None \<Rightarrow> False | Some h \<Rightarrow> h \<noteq> [] \<and> endswith (lower h) ''.pdf'')"

text \<open>\<^verbatim>\<open>tag['href']\<close>: the value, or \<^verbatim>\<open>KeyError\<close>.\<close>

definition getitem_href :: "node \<Rightarrow> error + string" where
  "getitem_href t = (case get_attr t ''href'' of None \<Rightarrow> Inl KeyError | Some h \<Rightarrow> Inr h)"

text \<open>Line 195: \<^verbatim>\<open>header.find_parent("div") or header.find_parent("td")\<close>, on the
  ancestors of the text node found.\<close>

definition find_container :: "node list \<Rightarrow> node option" where
  "find_container anc =
     (case find_parent ''div'' anc of
        Some d \<Rightarrow> Some d
      | None \<Rightarrow> find_parent ''td'' anc)"

text \<open>Lines 177 to 204: Strategy 1 on the link text, and in its \<^verbatim>\<open>else\<close> branch Strategy 2
  on the section header. The result is the dictionary \<open>docs\<close> after the assignments.\<close>

definition find_annual_report :: "node \<Rightarrow> int \<Rightarrow> dict \<Rightarrow> error + dict" where
  "find_annual_report sp year docs =
     (let target_pattern = ''WY_'' @ py_str year in
      case find_a_string (wy_pdf_text target_pattern) sp of
        Some pdf_link \<Rightarrow>
          (case getitem_href pdf_link of
             Inl e \<Rightarrow> Inl e
           | Inr h \<Rightarrow> Inr (AList.update ''annual_report_url'' (PyStr (DOMAIN @ h)) docs))
      | None \<Rightarrow>
          (case find_string annual_header_text sp of
             None \<Rightarrow> Inr docs
           | Some (header, anc) \<Rightarrow>
               (case find_container anc of
                  None \<Rightarrow> Inr docs
                | Some container \<Rightarrow>
                    (case find_a_href document_href container of
                       None \<Rightarrow> Inr docs
                     | Some fallback_link \<Rightarrow>
                         (case getitem_href fallback_link of
                            Inl e \<Rightarrow> Inl e
                          | Inr h \<Rightarrow>
                              Inr (AList.update ''annual_report_url'' (PyStr (DOMAIN @ h)) docs))))))"

text \<open>Lines 209 to 233: the GSP link and the hop to its sub-page. Every exception raised
  inside the \<^verbatim>\<open>try\<close> is caught there, so this step has no error branch.\<close>

definition find_gsp :: "portal \<Rightarrow> node \<Rightarrow> dict \<Rightarrow> action list \<times> dict" where
  "find_gsp p sp docs =
     (case find_a_string gsp_text sp of
        None \<Rightarrow> ([], docs)
      | Some gsp_link_text \<Rightarrow>
          (case get_attr gsp_link_text ''href'' of
             None \<Rightarrow> ([], docs)
           | Some href \<Rightarrow>
               if href = [] then ([], docs)
               else
                 let sub_page_url = DOMAIN @ href in
                 (case subpage p sub_page_url of
                    Inl e \<Rightarrow> ([Goto sub_page_url], docs)
                  | Inr sub_soup \<Rightarrow>
                      (case find_a_href pdf_href sub_soup of
                         None \<Rightarrow> ([Goto sub_page_url], docs)
                       | Some final_pdf \<Rightarrow>
                           (case getitem_href final_pdf of
                              Inl e \<Rightarrow> ([Goto sub_page_url], docs)
                            | Inr h \<Rightarrow>
                                ([Goto sub_page_url],
                                 AList.update ''gsp_url'' (PyStr (DOMAIN @ h)) docs))))))"

definition harvest_pdfs :: "portal \<Rightarrow> string \<Rightarrow> int \<Rightarrow> action list \<times> (error + dict)" where
  "harvest_pdfs p url year =
     (case detail p url of
        Inl e \<Rightarrow> ([Goto url], Inl e)
      | Inr sp \<Rightarrow>
          (let docs = [(''annual_report_url'', PyNone), (''gsp_url'', PyNone)] in
           case find_annual_report sp year docs of
             Inl e \<Rightarrow> ([Goto url], Inl e)
           | Inr docs1 \<Rightarrow>
               (case find_gsp p sp docs1 of (acts, docs2) \<Rightarrow> (Goto url # acts, Inr docs2))))"

subsection \<open>get\_basin\_documents\<close>

text \<open>Lines 40 to 67, from the \<^verbatim>\<open>try\<close> on (the browser is taken to have started).
  \<^verbatim>\<open>not target_url\<close> holds for \<open>None\<close> and for the empty string; the \<^verbatim>\<open>finally\<close>
  closes the browser on every path, and there is no \<^verbatim>\<open>except\<close>.\<close>

definition get_basin_documents :: "portal \<Rightarrow> string \<Rightarrow> action list \<times> (error + dict)" where
  "get_basin_documents p basin_identifier =
     (case find_basin_page p basin_identifier of
        (acts1, Inl e) \<Rightarrow> (acts1 @ [Close], Inl e)
      | (acts1, Inr (target_url, latest_year, full_basin_name)) \<Rightarrow>
          (case target_url of
             None \<Rightarrow> (acts1 @ [Close], Inr [])
           | Some url \<Rightarrow>
               if url = [] then (acts1 @ [Close], Inr [])
               else
                 (case harvest_pdfs p url latest_year of
                    (acts2, Inl e) \<Rightarrow> (acts1 @ acts2 @ [Close], Inl e)
                  | (acts2, Inr documents) \<Rightarrow>
                      (acts1 @ acts2 @ [Close],
                       Inr (AList.update ''latest_year'' (PyInt latest_year)
                              (AList.update ''basin_name'' (PyStr full_basin_name) documents))))))"

subsection \<open>Notions of the specification\<close>

text \<open>
  A valid candidate row of the amended C1: the row has a cell at both mapped columns, the
  basin cell's text contains the identifier (both lower-cased), the year cell's text has
  four digits in a row, and the first \<^verbatim>\<open>a\<close> tag of the basin cell carries a non-empty
  \<^verbatim>\<open>href\<close>. The candidate is the parsed year, the basin text and the absolute detail URL.
\<close>

definition candidate :: "string \<Rightarrow> nat \<Rightarrow> nat \<Rightarrow> node \<Rightarrow> (int \<times> string \<times> string) option" where
  "candidate identifier basin_idx year_idx row =
     (let cols = find_all [''td''] row in
      if length cols \<le> max basin_idx year_idx then None
      else if \<not> str_in (lower identifier) (lower (get_text_strip (cols ! basin_idx))) then None
      else
        (case re_search_d4 (get_text_strip (cols ! year_idx)) of
           None \<Rightarrow> None
         | Some w \<Rightarrow>
             (case find_tag ''a'' (cols ! basin_idx) of
                None \<Rightarrow> None
              | Some link_tag \<Rightarrow>
                  (case get_attr link_tag ''href'' of
                     None \<Rightarrow> None
                   | Some href \<Rightarrow>
                       if href = [] then None
                       else Some (py_int w, get_text_strip (cols ! basin_idx), DOMAIN @ href)))))"

text \<open>
  A valid candidate row as C1 words it: identifier substring match, a four-digit year, and
  a hyperlink present in the basin cell, which is any \<^verbatim>\<open>a\<close> tag of the cell with a
  non-empty \<^verbatim>\<open>href\<close>. The value is the parsed year of such a row.
\<close>

definition has_hyperlink :: "node \<Rightarrow> bool" where
  "has_hyperlink cell =
     list_ex (\<lambda>a. case get_attr a ''href'' of None \<Rightarrow> False | Some h \<Rightarrow> h \<noteq> [])
       (find_all [''a''] cell)"

definition claimed_candidate_year :: "string \<Rightarrow> nat \<Rightarrow> nat \<Rightarrow> node \<Rightarrow> int option" where
  "claimed_candidate_year identifier basin_idx year_idx row =
     (let cols = find_all [''td''] row in
      if length cols \<le> max basin_idx year_idx then None
      else if str_in (lower identifier) (lower (get_text_strip (cols ! basin_idx))) \<and>
              has_hyperlink (cols ! basin_idx)
      then map_option py_int (re_search_d4 (get_text_strip (cols ! year_idx)))
      else None)"

text \<open>
  The header cells of a listing snapshot, as the Header Mapper's contract has them: the
  \<^verbatim>\<open>th\<close> and \<^verbatim>\<open>td\<close> cells of the first row of the table's header section or, when
  the table has no header section, of the table's first row.
\<close>

definition header_cells :: "node \<Rightarrow> node list option" where
  "header_cells sp =
     (case find_tag ''table'' sp of
        None \<Rightarrow> None
      | Some table \<Rightarrow>
          (case find_tag ''thead'' table of
             Some thead \<Rightarrow> map_option (find_all [''th'', ''td'']) (find_tag ''tr'' thead)
           | None \<Rightarrow> map_option (find_all [''th'', ''td'']) (find_tag ''tr'' table)))"

text \<open>\<open>is_latest cs k\<close>: among the candidates \<open>cs\<close>, in scan order, the one at index \<open>k\<close>
  has the greatest year, and every later one has a strictly smaller year.\<close>

definition is_latest :: "(int \<times> string \<times> string) list \<Rightarrow> nat \<Rightarrow> bool" where
  "is_latest cs k =
     (k < length cs \<and> list_all (\<lambda>x. fst x \<le> fst (cs ! k)) (take k cs) \<and>
      list_all (\<lambda>x. fst x < fst (cs ! k)) (drop (Suc k) cs))"

text \<open>A run of four digits starts at position \<open>i\<close> of the text.\<close>

definition run_at :: "string \<Rightarrow> nat \<Rightarrow> bool" where
  "run_at s i = (i + 4 \<le> length s \<and> list_all is_digit (take 4 (drop i s)))"

text \<open>
  The link tests as the claims word them, on the visible text of an anchor (all the text
  below it, \<open>get_text\<close>), and the first anchor of a page that passes a test.
\<close>

definition wy_pdf_visible :: "string \<Rightarrow> node \<Rightarrow> bool" where
  "wy_pdf_visible target_pattern a =
     (str_in target_pattern (get_text a) \<and> str_in ''.pdf'' (lower (get_text a)))"

definition gsp_visible :: "node \<Rightarrow> bool" where
  "gsp_visible a = (str_in ''GSP'' (get_text a) \<and> str_in ''20'' (get_text a))"

definition first_anchor :: "(node \<Rightarrow> bool) \<Rightarrow> node \<Rightarrow> node option" where
  "first_anchor P sp = List.find (\<lambda>d. is_named [''a''] d \<and> P d) (descendants sp)"



text \<open>
  The anchor each step of \<open>harvest_pdfs\<close> matched, if any: \<^verbatim>\<open>pdf_link\<close> or, failing that,
  \<^verbatim>\<open>fallback_link\<close> on the detail page; \<^verbatim>\<open>final_pdf\<close> on the sub-page.
\<close>

definition matched_annual :: "node \<Rightarrow> int \<Rightarrow> node option" where
  "matched_annual sp year =
     (case find_a_string (wy_pdf_text (''WY_'' @ py_str year)) sp of
        Some pdf_link \<Rightarrow> Some pdf_link
      | None \<Rightarrow>
          (case find_string annual_header_text sp of
             None \<Rightarrow> None
           | Some (header, anc) \<Rightarrow>
               (case find_container anc of
                  None \<Rightarrow> None
                | Some container \<Rightarrow> find_a_href document_href container)))"

definition matched_gsp :: "portal \<Rightarrow> node \<Rightarrow> node option" where
  "matched_gsp p sp =
     (case find_a_string gsp_text sp of
        None \<Rightarrow> None
      | Some gsp_link_text \<Rightarrow>
          (case get_attr gsp_link_text ''href'' of
             None \<Rightarrow> None
           | Some href \<Rightarrow>
               if href = [] then None
               else (case subpage p (DOMAIN @ href) of
                       Inl e \<Rightarrow> None
                     | Inr sub_soup \<Rightarrow> find_a_href pdf_href sub_soup)))"

subsection \<open>Sample pages\<close>

text \<open>A listing table with a header section, the rows of the specification's example
  and one tie on the latest year; a detail page; a GSP sub-page.\<close>

definition th_cell :: "string \<Rightarrow> node" where
  "th_cell t = Elem ''th'' [] [Text t]"

definition td_text :: "string \<Rightarrow> node" where
  "td_text t = Elem ''td'' [] [Text t]"

definition td_link :: "string \<Rightarrow> string \<Rightarrow> node" where
  "td_link href t = Elem ''td'' [] [Elem ''a'' [(''href'', href)] [Text t]]"

definition table_page :: "string list \<Rightarrow> node list \<Rightarrow> node" where
  "table_page hs rows =
     soup [Elem ''table'' []
             [Elem ''thead'' [] [Elem ''tr'' [] (map th_cell hs)], Elem ''tbody'' [] rows]]"

definition ex_rows :: "node list" where
  "ex_rows =
     [Elem ''tr'' [] [td_link ''/status/1'' ''Basin A (1-001)'', td_text ''Submitted'', td_text ''2023''],
      Elem ''tr'' [] [td_link ''/status/2'' ''Basin A (1-001)'', td_text ''Submitted'', td_text ''2024 (Draft)''],
      Elem ''tr'' [] [td_link ''/status/3'' ''Basin A (1-001)'', td_text ''Submitted'', td_text ''2024''],
      Elem ''tr'' [] [td_link ''/status/4'' ''Basin B (1-002)'', td_text ''Submitted'', td_text ''2025'']]"

definition ex_listing :: node where
  "ex_listing = table_page [''Basin'', ''Status'', ''Year''] ex_rows"

definition ex_listing_unlabelled :: node where
  "ex_listing_unlabelled = table_page [''Name'', ''Status'', ''Year''] ex_rows"

definition ex_detail :: node where
  "ex_detail =
     soup [Elem ''div'' []
             [Elem ''h3'' [] [Text ''Annual Report PDF(s)''],
              Elem ''a'' [(''href'', ''/document/9'')] [Text ''Download''],
              Elem ''a'' [(''href'', ''/document/555'')] [Text ''3-001_WY_2024.pdf'']],
           Elem ''a'' [(''href'', ''/gsp/7'')] [Text ''GSP 2022'']]"

definition ex_subpage :: node where
  "ex_subpage = soup [Elem ''a'' [(''href'', ''/files/plan.PDF'')] [Text ''Adopted GSP'']]"

definition ex_portal :: portal where
  "ex_portal =
     \<lparr>listing = Inr ex_listing, filtered = (\<lambda>i. Inr ex_listing),
      detail = (\<lambda>u. Inr ex_detail), subpage = (\<lambda>u. Inr ex_subpage)\<rparr>"

definition ex_portal_timeout :: portal where
  "ex_portal_timeout =
     \<lparr>listing = Inl Timeout, filtered = (\<lambda>i. Inr ex_listing),
      detail = (\<lambda>u. Inr ex_detail), subpage = (\<lambda>u. Inr ex_subpage)\<rparr>"

definition ex_portal_unlabelled :: portal where
  "ex_portal_unlabelled =
     \<lparr>listing = Inr ex_listing_unlabelled, filtered = (\<lambda>i. Inr ex_listing_unlabelled),
      detail = (\<lambda>u. Inr ex_detail), subpage = (\<lambda>u. Inr ex_subpage)\<rparr>"

definition ex_row_draft :: node where
  "ex_row_draft = Elem ''tr'' [] [td_link ''/status/2'' ''Basin A (1-001)'', td_text ''Submitted'', td_text ''Report 2024 (Draft)'']"

definition ex_row_pending :: node where
  "ex_row_pending = Elem ''tr'' [] [td_link ''/status/5'' ''Basin A (1-001)'', td_text ''Submitted'', td_text ''FY 24, pending'']"

definition ex_portal_unreachable :: portal where
  "ex_portal_unreachable =
     \<lparr>listing = Inr ex_listing, filtered = (\<lambda>i. Inr ex_listing),
      detail = (\<lambda>u. Inr ex_detail), subpage = (\<lambda>u. Inl Timeout)\<rparr>"




definition ex_icon_link :: node where
  "ex_icon_link =
     Elem ''a'' [(''href'', ''/document/555'')]
       [Elem ''i'' [(''class'', ''icon-pdf'')] [], Text '' 3-001_WY_2024.pdf'']"

definition ex_detail_icon :: node where
  "ex_detail_icon = soup [Elem ''p'' [] [ex_icon_link]]"

definition ex_portal_icon :: portal where
  "ex_portal_icon =
     \<lparr>listing = Inr ex_listing, filtered = (\<lambda>i. Inr ex_listing),
      detail = (\<lambda>u. Inr ex_detail_icon), subpage = (\<lambda>u. Inr ex_subpage)\<rparr>"

definition ex_gsp_heading :: node where
  "ex_gsp_heading = Elem ''a'' [(''name'', ''gsp'')] [Elem ''b'' [] [Text ''GSP''], Text '' 2020 submittal'']"

definition ex_detail_gsp :: node where
  "ex_detail_gsp =
     soup [ex_gsp_heading, Elem ''a'' [(''href'', ''/gsp/7'')] [Text ''GSP 2022'']]"

definition ex_portal_gsp :: portal where
  "ex_portal_gsp =
     \<lparr>listing = Inr ex_listing, filtered = (\<lambda>i. Inr ex_listing),
      detail = (\<lambda>u. Inr ex_detail_gsp), subpage = (\<lambda>u. Inr ex_subpage)\<rparr>"

text \<open>A listing whose latest row has a named anchor before the link of its basin cell, and
  a listing with reordered, mixed-case headers.\<close>

definition ex_rows_anchor :: "node list" where
  "ex_rows_anchor =
     [Elem ''tr'' []
        [Elem ''td'' []
           [Elem ''a'' [(''name'', ''top'')] [],
            Elem ''a'' [(''href'', ''/status/9'')] [Text ''Basin A (1-001)'']],
         td_text ''Submitted'', td_text ''2025''],
      Elem ''tr'' [] [td_link ''/status/1'' ''Basin A (1-001)'', td_text ''Submitted'', td_text ''2023'']]"

definition ex_listing_anchor :: node where
  "ex_listing_anchor = table_page [''Basin'', ''Status'', ''Year''] ex_rows_anchor"

definition ex_portal_anchor :: portal where
  "ex_portal_anchor =
     \<lparr>listing = Inr ex_listing_anchor, filtered = (\<lambda>i. Inr ex_listing_anchor),
      detail = (\<lambda>u. Inr ex_detail), subpage = (\<lambda>u. Inr ex_subpage)\<rparr>"

definition ex_listing_reordered :: node where
  "ex_listing_reordered =
     table_page [''Status'', ''Reporting YEAR'', ''Basin/Subbasin'', ''BASIN Code''] []"

section \<open>Properties\<close>

subsection \<open>The row scan\<close>

lemma scan_row_candidate:
  "scan_row identifier bi yi bst row =
     (case candidate identifier bi yi row of
        None \<Rightarrow> bst
      | Some (y, nm, url) \<Rightarrow> if y \<ge> fst (snd bst) then (Some url, y, nm) else bst)"
  by (cases bst) (simp add: scan_row_def candidate_def Let_def split: option.splits)

lemma scan_rows_snoc:
  "scan_rows identifier bi yi bst (rows @ [r]) =
     scan_row identifier bi yi (scan_rows identifier bi yi bst rows) r"
  by (induction rows arbitrary: bst) simp_all

lemma digit_val_range: "is_digit c \<Longrightarrow> 0 \<le> digit_val c \<and> digit_val c \<le> 9"
  by (auto simp: is_digit_def digit_val_def)

lemma re_search_d4_Some:
  "re_search_d4 s = Some w \<Longrightarrow> length w = 4 \<and> list_all is_digit w"
  by (induction s rule: re_search_d4.induct) (auto split: if_splits)

lemma py_int_four:
  "py_int [a, b, c, d] = 1000 * digit_val a + 100 * digit_val b + 10 * digit_val c + digit_val d"
  by (simp add: py_int_def)

lemma length_four: "length w = 4 \<Longrightarrow> \<exists>a b c d. w = [a, b, c, d]"
  by (cases w; simp; cases "tl w"; simp; cases "tl (tl w)"; simp; cases "tl (tl (tl w))"; auto)

lemma py_int_nonneg: "re_search_d4 s = Some w \<Longrightarrow> 0 \<le> py_int w"
proof -
  assume a: "re_search_d4 s = Some w"
  then have l: "length w = 4" and d: "list_all is_digit w" using re_search_d4_Some by auto
  from l obtain a b c d where w: "w = [a, b, c, d]" using length_four by blast
  with d show ?thesis using digit_val_range[of a] digit_val_range[of b] digit_val_range[of c] digit_val_range[of d]
    by (simp add: py_int_four)
qed

lemma candidate_year_nonneg: "candidate identifier bi yi row = Some (y, nm, url) \<Longrightarrow> 0 \<le> y"
  by (auto simp: candidate_def Let_def py_int_nonneg split: if_splits option.splits)

lemma map_filter_snoc:
  "List.map_filter f (xs @ [x]) = List.map_filter f xs @ (case f x of None \<Rightarrow> [] | Some y \<Rightarrow> [y])"
  by (induction xs) (auto simp: List.map_filter_simps split: option.splits)

lemma is_latest_new:
  "list_all (\<lambda>x. fst x \<le> fst c') cs \<Longrightarrow> is_latest (cs @ [c']) (length cs)"
  by (simp add: is_latest_def)

lemma is_latest_keep:
  "is_latest cs k \<Longrightarrow> fst c' < fst (cs ! k) \<Longrightarrow> is_latest (cs @ [c']) k"
  by (simp add: is_latest_def nth_append)

lemma is_latest_all_le:
  assumes "is_latest cs k" and "fst (cs ! k) \<le> y"
  shows "list_all (\<lambda>x. fst x \<le> y) cs"
proof -
  have k: "k < length cs" using assms(1) by (simp add: is_latest_def)
  have "list_all (\<lambda>x. fst x \<le> y) (take k cs)"
    using assms by (auto simp: is_latest_def list_all_iff)
  moreover have "list_all (\<lambda>x. fst x \<le> y) (drop (Suc k) cs)"
    using assms by (auto simp: is_latest_def list_all_iff)
  ultimately have "list_all (\<lambda>x. fst x \<le> y) (take k cs @ cs ! k # drop (Suc k) cs)"
    using assms(2) by simp
  then show ?thesis using k by (simp add: id_take_nth_drop[symmetric])
qed

lemma is_latest_unique:
  assumes "is_latest cs k" and "is_latest cs m"
  shows "k = m"
proof -
  have less: "\<not> a < b" if "is_latest cs a" "is_latest cs b" for a b
  proof
    assume ab: "a < b"
    have b: "b < length cs" using that(2) by (simp add: is_latest_def)
    have "cs ! b \<in> set (drop (Suc a) cs)"
      using ab b by (auto simp: in_set_conv_nth intro!: exI[of _ "b - Suc a"])
    then have 1: "fst (cs ! b) < fst (cs ! a)"
      using that(1) by (auto simp: is_latest_def list_all_iff)
    have "cs ! a \<in> set (take b cs)"
      using ab b by (auto simp: in_set_conv_nth intro!: exI[of _ a])
    then have "fst (cs ! a) \<le> fst (cs ! b)"
      using that(2) by (auto simp: is_latest_def list_all_iff)
    then show False using 1 by simp
  qed
  show ?thesis using less[OF assms] less[OF assms(2) assms(1)] by simp
qed

lemma scan_rows_invariant:
  "(List.map_filter (candidate identifier bi yi) rows = [] \<longrightarrow>
      scan_rows identifier bi yi (None, 0, []) rows = (None, 0, [])) \<and>
   (List.map_filter (candidate identifier bi yi) rows \<noteq> [] \<longrightarrow>
      (\<exists>k. is_latest (List.map_filter (candidate identifier bi yi) rows) k \<and>
           scan_rows identifier bi yi (None, 0, []) rows =
             (case List.map_filter (candidate identifier bi yi) rows ! k of
                (y, nm, url) \<Rightarrow> (Some url, y, nm))))"
proof (induction rows rule: rev_induct)
  case Nil
  show ?case by (simp add: List.map_filter_simps)
next
  case (snoc r rows)
  let ?cs = "List.map_filter (candidate identifier bi yi) rows"
  let ?old = "scan_rows identifier bi yi (None, 0, []) rows"
  show ?case
  proof (cases "candidate identifier bi yi r")
    case None
    then show ?thesis using snoc
      by (simp add: map_filter_snoc scan_rows_snoc scan_row_candidate)
  next
    case (Some c')
    obtain y nm url where c': "c' = (y, nm, url)" by (cases c')
    have y0: "0 \<le> y" using Some c' candidate_year_nonneg by blast
    have cs': "List.map_filter (candidate identifier bi yi) (rows @ [r]) = ?cs @ [c']"
      using Some by (simp add: map_filter_snoc)
    have step: "scan_rows identifier bi yi (None, 0, []) (rows @ [r]) =
                  (if fst (snd ?old) \<le> y then (Some url, y, nm) else ?old)"
      using Some c' by (simp add: scan_rows_snoc scan_row_candidate)
    have "\<exists>k. is_latest (?cs @ [c']) k \<and>
            scan_rows identifier bi yi (None, 0, []) (rows @ [r]) =
              (case (?cs @ [c']) ! k of (y, nm, url) \<Rightarrow> (Some url, y, nm))"
    proof (cases "?cs = []")
      case True
      then have "?old = (None, 0, [])" using snoc by simp
      then have "scan_rows identifier bi yi (None, 0, []) (rows @ [r]) = (Some url, y, nm)"
        using step y0 by simp
      moreover have "is_latest (?cs @ [c']) 0" using True by (simp add: is_latest_def)
      ultimately show ?thesis using True c' by (intro exI[of _ 0]) simp
    next
      case False
      then obtain k where old: "is_latest ?cs k"
        "?old = (case ?cs ! k of (y, nm, url) \<Rightarrow> (Some url, y, nm))"
        using snoc by blast
      have k: "k < length ?cs" using old(1) by (simp add: is_latest_def)
      have oldy: "fst (snd ?old) = fst (?cs ! k)" using old(2) by (simp split: prod.splits)
      show ?thesis
      proof (cases "fst (?cs ! k) \<le> y")
        case True
        have "list_all (\<lambda>x. fst x \<le> fst c') ?cs"
          using is_latest_all_le[OF old(1), of y] True c' by simp
        then have "is_latest (?cs @ [c']) (length ?cs)" by (rule is_latest_new)
        moreover have "scan_rows identifier bi yi (None, 0, []) (rows @ [r]) = (Some url, y, nm)"
          using step oldy True by simp
        ultimately show ?thesis using c' by (intro exI[of _ "length ?cs"]) simp
      next
        case False
        then have "is_latest (?cs @ [c']) k" using old(1) c' by (intro is_latest_keep) simp_all
        moreover have "scan_rows identifier bi yi (None, 0, []) (rows @ [r]) = ?old"
          using step oldy False by simp
        ultimately show ?thesis using old(2) k by (intro exI[of _ k]) (simp add: nth_append)
      qed
    qed
    then show ?thesis using cs' by simp
  qed
qed

subsection \<open>Year parsing\<close>

lemma run_at_Suc: "run_at (a # s) (Suc i) = run_at s i"
  by (auto simp: run_at_def)

lemma run_at_0:
  "run_at (a # b # c # d # rest) 0 = (is_digit a \<and> is_digit b \<and> is_digit c \<and> is_digit d)"
  by (simp add: run_at_def)

lemma run_at_short: "length s < 4 \<Longrightarrow> \<not> run_at s i"
  by (simp add: run_at_def)

lemma re_search_d4_first:
  "re_search_d4 s = Some w \<Longrightarrow>
     \<exists>i. run_at s i \<and> (\<forall>j<i. \<not> run_at s j) \<and> w = take 4 (drop i s)"
proof (induction s rule: re_search_d4.induct)
  case (1 a b c d rest)
  show ?case
  proof (cases "is_digit a \<and> is_digit b \<and> is_digit c \<and> is_digit d")
    case True
    then have "w = [a, b, c, d]" using 1(2) by simp
    then have "run_at (a # b # c # d # rest) 0 \<and> (\<forall>j<0. \<not> run_at (a # b # c # d # rest) j) \<and>
               w = take 4 (drop 0 (a # b # c # d # rest))"
      using True by (simp add: run_at_0)
    then show ?thesis by blast
  next
    case False
    then have "re_search_d4 (b # c # d # rest) = Some w" using 1(2) by (auto split: if_splits)
    then obtain i where i: "run_at (b # c # d # rest) i"
      "\<forall>j<i. \<not> run_at (b # c # d # rest) j" "w = take 4 (drop i (b # c # d # rest))"
      using 1(1) False by blast
    have "\<forall>j<Suc i. \<not> run_at (a # b # c # d # rest) j"
    proof (intro allI impI)
      fix j assume "j < Suc i"
      then show "\<not> run_at (a # b # c # d # rest) j"
        using i(2) False by (cases j) (simp_all add: run_at_0 run_at_Suc)
    qed
    then have "run_at (a # b # c # d # rest) (Suc i) \<and>
               (\<forall>j<Suc i. \<not> run_at (a # b # c # d # rest) j) \<and>
               w = take 4 (drop (Suc i) (a # b # c # d # rest))"
      using i by (simp add: run_at_Suc)
    then show ?thesis by blast
  qed
qed simp_all

lemma re_search_d4_None:
  "re_search_d4 s = None \<Longrightarrow> \<not> run_at s i"
proof (induction s arbitrary: i rule: re_search_d4.induct)
  case (1 a b c d rest)
  then have nd: "\<not> (is_digit a \<and> is_digit b \<and> is_digit c \<and> is_digit d)"
    and rest: "re_search_d4 (b # c # d # rest) = None"
    by (auto split: if_splits)
  show ?case
  proof (cases i)
    case 0
    then show ?thesis using nd by (simp add: run_at_0)
  next
    case (Suc k)
    then show ?thesis using 1(1)[OF nd rest, of k] by (simp add: run_at_Suc)
  qed
qed (simp_all add: run_at_short)

lemma py_int_window:
  assumes "run_at s i"
  shows "py_int (take 4 (drop i s)) =
           1000 * digit_val (s ! i) + 100 * digit_val (s ! (i + 1)) +
           10 * digit_val (s ! (i + 2)) + digit_val (s ! (i + 3))"
proof -
  have len: "i + 4 \<le> length s" using assms by (simp add: run_at_def)
  have "take 4 (drop i s) = [s ! i, s ! (i + 1), s ! (i + 2), s ! (i + 3)]"
    using len by (intro nth_equalityI) (auto simp: nth_Cons' numeral_eq_Suc less_Suc_eq)
  then show ?thesis by (simp add: py_int_four)
qed

subsection \<open>Header mapping\<close>

lemma next_index_Inr:
  "next_index kw hs = Inr i \<longleftrightarrow>
     (i < length hs \<and> str_in kw (hs ! i) \<and> (\<forall>k<i. \<not> str_in kw (hs ! k)))"
proof (induction hs arbitrary: i)
  case Nil
  show ?case by simp
next
  case (Cons h hs)
  show ?case
  proof (cases "str_in kw h")
    case True
    then show ?thesis by (cases i) auto
  next
    case False
    show ?thesis
    proof (cases i)
      case 0
      then show ?thesis using False by (cases "next_index kw hs") simp_all
    next
      case (Suc k)
      have all: "(\<forall>m<Suc k. \<not> str_in kw ((h # hs) ! m)) = (\<forall>m<k. \<not> str_in kw (hs ! m))"
        using False by (auto simp: less_Suc_eq_0_disj)
      have "(next_index kw (h # hs) = Inr (Suc k)) = (next_index kw hs = Inr k)"
        using False by (cases "next_index kw hs") simp_all
      then show ?thesis using Suc Cons[of k] all by simp
    qed
  qed
qed

lemma next_index_Inl:
  "next_index kw hs = Inl e \<longleftrightarrow> (e = StopIteration \<and> (\<forall>k<length hs. \<not> str_in kw (hs ! k)))"
proof (induction hs)
  case Nil
  show ?case by auto
next
  case (Cons h hs)
  show ?case
  proof (cases "str_in kw h")
    case True
    then show ?thesis by auto
  next
    case False
    have all: "(\<forall>m<length (h # hs). \<not> str_in kw ((h # hs) ! m)) = (\<forall>m<length hs. \<not> str_in kw (hs ! m))"
      using False by (auto simp: less_Suc_eq_0_disj)
    have "(next_index kw (h # hs) = Inl e) = (next_index kw hs = Inl e)"
      using False by (cases "next_index kw hs") simp_all
    then show ?thesis using Cons all by simp
  qed
qed

lemma map_headers_error: "map_headers headers = Inl e \<Longrightarrow> e = StopIteration"
  by (auto simp: map_headers_def next_index_Inl split: sum.splits)

subsection \<open>Queries on the tree and the harvested dictionary\<close>

lemma descendants_trans:
  "c \<in> set (descendants n) \<Longrightarrow> d \<in> set (descendants c) \<Longrightarrow> d \<in> set (descendants n)"
proof (induction n)
  case (Text s)
  then show ?case by simp
next
  case (Comment s)
  then show ?case by simp
next
  case (Elem nm a cs)
  from Elem.prems(1) obtain ch where ch: "ch \<in> set cs" "c = ch \<or> c \<in> set (descendants ch)"
    by auto
  then have "d \<in> set (descendants ch)"
    using Elem.IH[of ch] Elem.prems(2) by auto
  then show ?case using ch(1) by auto
qed

lemma walk_ancestors:
  "(d, a) \<in> set (walk anc n) \<Longrightarrow> x \<in> set a \<Longrightarrow>
     x \<in> set anc \<or> x = n \<or> x \<in> set (descendants n)"
proof (induction n arbitrary: anc)
  case (Text s)
  then show ?case by simp
next
  case (Comment s)
  then show ?case by simp
next
  case (Elem nm at cs)
  from Elem.prems(1) obtain ch where ch: "ch \<in> set cs"
    "(d, a) = (ch, Elem nm at cs # anc) \<or> (d, a) \<in> set (walk (Elem nm at cs # anc) ch)"
    by auto
  from ch(2) show ?case
  proof
    assume "(d, a) = (ch, Elem nm at cs # anc)"
    then show ?thesis using Elem.prems(2) by auto
  next
    assume "(d, a) \<in> set (walk (Elem nm at cs # anc) ch)"
    then have "x \<in> set (Elem nm at cs # anc) \<or> x = ch \<or> x \<in> set (descendants ch)"
      using Elem.IH[OF ch(1)] Elem.prems(2) by blast
    then show ?thesis using ch(1) by auto
  qed
qed

lemma find_a_href_Some:
  "find_a_href f c = Some l \<Longrightarrow>
     l \<in> set (descendants c) \<and> is_named [''a''] l \<and> f (get_attr l ''href'')"
  by (auto simp: find_a_href_def find_Some_iff)

lemma find_a_string_Some:
  "find_a_string f c = Some l \<Longrightarrow>
     l \<in> set (descendants c) \<and> is_named [''a''] l \<and> f (tag_string l)"
  by (auto simp: find_a_string_def find_Some_iff)

lemma find_parent_Some: "find_parent nm anc = Some c \<Longrightarrow> c \<in> set anc \<and> is_named [nm] c"
  by (auto simp: find_parent_def find_Some_iff)

lemma find_string_Some: "find_string f n = Some (d, anc) \<Longrightarrow> (d, anc) \<in> set (walk [] n) \<and> is_text f d"
  by (auto simp: find_string_def find_Some_iff) (metis nth_mem)

lemma document_href_Some: "document_href x \<Longrightarrow> \<exists>h. x = Some h \<and> h \<noteq> [] \<and> str_in ''/document/'' h"
  by (cases x) (simp_all add: document_href_def)

lemma pdf_href_Some: "pdf_href x \<Longrightarrow> \<exists>h. x = Some h \<and> h \<noteq> [] \<and> endswith (lower h) ''.pdf''"
  by (cases x) (simp_all add: pdf_href_def)

lemma getitem_href_document:
  "find_a_href document_href c = Some l \<Longrightarrow> \<exists>h. getitem_href l = Inr h \<and> get_attr l ''href'' = Some h \<and> str_in ''/document/'' h"
  using find_a_href_Some[of document_href c l] document_href_Some[of "get_attr l ''href''"]
  by (auto simp: getitem_href_def)

lemma getitem_href_pdf:
  "find_a_href pdf_href c = Some l \<Longrightarrow> \<exists>h. getitem_href l = Inr h \<and> get_attr l ''href'' = Some h \<and> endswith (lower h) ''.pdf''"
  using find_a_href_Some[of pdf_href c l] pdf_href_Some[of "get_attr l ''href''"]
  by (auto simp: getitem_href_def)

lemma find_container_Some:
  "find_container anc = Some c \<Longrightarrow> c \<in> set anc"
  by (auto simp: find_container_def split: option.splits dest: find_parent_Some)

lemma container_in_page:
  assumes "find_string f sp = Some (hdr, anc)" and "find_container anc = Some c"
  shows "c = sp \<or> c \<in> set (descendants sp)"
  using walk_ancestors[of hdr anc "[]" sp c] find_string_Some[OF assms(1)] find_container_Some[OF assms(2)]
  by auto

lemma find_annual_report_shape:
  assumes "find_annual_report sp year [(''annual_report_url'', PyNone), (''gsp_url'', PyNone)] = Inr d"
  shows "\<exists>a. d = [(''annual_report_url'', a), (''gsp_url'', PyNone)] \<and>
           (a = PyNone \<or>
            (\<exists>l h. matched_annual sp year = Some l \<and> l \<in> set (descendants sp) \<and>
                   is_named [''a''] l \<and> get_attr l ''href'' = Some h \<and> a = PyStr (DOMAIN @ h)))"
proof (cases "find_a_string (wy_pdf_text (''WY_'' @ py_str year)) sp")
  case (Some l)
  then obtain h where h: "get_attr l ''href'' = Some h"
      and d: "d = [(''annual_report_url'', PyStr (DOMAIN @ h)), (''gsp_url'', PyNone)]"
    using assms by (auto simp: find_annual_report_def getitem_href_def split: option.splits)
  have m: "matched_annual sp year = Some l" using Some by (simp add: matched_annual_def)
  have "l \<in> set (descendants sp) \<and> is_named [''a''] l" using find_a_string_Some[OF Some] by simp
  then show ?thesis using h d m by blast
next
  case None
  show ?thesis
  proof (cases "find_string annual_header_text sp")
    case N2: None
    then show ?thesis using assms None by (auto simp: find_annual_report_def)
  next
    case (Some ha)
    obtain hdr anc where ha: "ha = (hdr, anc)" by (cases ha)
    show ?thesis
    proof (cases "find_container anc")
      case N3: None
      then show ?thesis using assms None Some ha by (auto simp: find_annual_report_def)
    next
      case S3: (Some c)
      show ?thesis
      proof (cases "find_a_href document_href c")
        case N4: None
        then show ?thesis using assms None Some ha S3 by (auto simp: find_annual_report_def)
      next
        case S4: (Some l)
        obtain h where h: "getitem_href l = Inr h" "get_attr l ''href'' = Some h"
          using getitem_href_document[OF S4] by blast
        have d: "d = [(''annual_report_url'', PyStr (DOMAIN @ h)), (''gsp_url'', PyNone)]"
          using assms None Some ha S3 S4 h by (auto simp: find_annual_report_def)
        have lc: "l \<in> set (descendants c)" "is_named [''a''] l" using find_a_href_Some[OF S4] by simp_all
        have "c = sp \<or> c \<in> set (descendants sp)"
          using container_in_page[of annual_header_text sp hdr anc c] Some ha S3 by simp
        then have "l \<in> set (descendants sp)" using lc(1) descendants_trans by blast
        moreover have "matched_annual sp year = Some l"
          using None Some ha S3 S4 by (simp add: matched_annual_def)
        ultimately show ?thesis using d h lc by blast
      qed
    qed
  qed
qed

lemma find_gsp_shape:
  assumes "find_gsp p sp [(''annual_report_url'', a), (''gsp_url'', PyNone)] = (acts, d)"
  shows "\<exists>g. d = [(''annual_report_url'', a), (''gsp_url'', g)] \<and>
           (g = PyNone \<or>
            (\<exists>u sub l h. matched_gsp p sp = Some l \<and> subpage p u = Inr sub \<and>
                   l \<in> set (descendants sub) \<and> is_named [''a''] l \<and>
                   get_attr l ''href'' = Some h \<and> g = PyStr (DOMAIN @ h)))"
proof (cases "find_a_string gsp_text sp")
  case None
  then show ?thesis using assms by (auto simp: find_gsp_def)
next
  case (Some gl)
  show ?thesis
  proof (cases "get_attr gl ''href''")
    case N2: None
    then show ?thesis using assms Some by (auto simp: find_gsp_def)
  next
    case S2: (Some href)
    show ?thesis
    proof (cases "href = []")
      case True
      then show ?thesis using assms Some S2 by (auto simp: find_gsp_def)
    next
      case False
      show ?thesis
      proof (cases "subpage p (DOMAIN @ href)")
        case (Inl e)
        then show ?thesis using assms Some S2 False by (auto simp: find_gsp_def)
      next
        case (Inr sub)
        show ?thesis
        proof (cases "find_a_href pdf_href sub")
          case N5: None
          then show ?thesis using assms Some S2 False Inr by (auto simp: find_gsp_def)
        next
          case S5: (Some l)
          obtain h where h: "getitem_href l = Inr h" "get_attr l ''href'' = Some h"
            using getitem_href_pdf[OF S5] by blast
          have d: "d = [(''annual_report_url'', a), (''gsp_url'', PyStr (DOMAIN @ h))]"
            using assms Some S2 False Inr S5 h by (auto simp: find_gsp_def)
          have m: "matched_gsp p sp = Some l"
            using Some S2 False Inr S5 by (simp add: matched_gsp_def)
          have "l \<in> set (descendants sub) \<and> is_named [''a''] l" using find_a_href_Some[OF S5] by simp
          then show ?thesis using d h Inr m by blast
        qed
      qed
    qed
  qed
qed

subsection \<open>The paths of the entry point\<close>

lemma header_failure_aborts:
  assumes "listing p = Inr sp" and "read_headers sp = Inr headers"
    and "map_headers headers = Inl e"
  shows "find_basin_page p identifier = ([Goto BASE_URL], Inr (None, 0, []))"
    and "get_basin_documents p identifier = ([Goto BASE_URL, Close], Inr [])"
proof -
  have e: "e = StopIteration" using assms(3) by (rule map_headers_error)
  show f: "find_basin_page p identifier = ([Goto BASE_URL], Inr (None, 0, []))"
    using assms e by (simp add: find_basin_page_def)
  show "get_basin_documents p identifier = ([Goto BASE_URL, Close], Inr [])"
    using f by (simp add: get_basin_documents_def)
qed

lemma listing_failure_escapes:
  assumes "listing p = Inl e"
  shows "get_basin_documents p identifier = ([Goto BASE_URL, Close], Inl e)"
  using assms by (simp add: get_basin_documents_def find_basin_page_def)

lemma find_basin_page_scan:
  assumes "listing p = Inr sp" and "read_headers sp = Inr headers"
    and "map_headers headers = Inr (bi, yi)"
    and "filtered p identifier = Inr sp2" and "read_rows sp2 = Inr rows"
  shows "find_basin_page p identifier =
           ([Goto BASE_URL, Search identifier],
            Inr (scan_rows identifier bi yi (None, 0, []) rows))"
  using assms by (simp add: find_basin_page_def)

subsection \<open>The leftmost run and the candidate's year\<close>

lemma first_run_unique:
  "run_at s i \<Longrightarrow> (\<forall>j<i. \<not> run_at s j) \<Longrightarrow> run_at s m \<Longrightarrow> (\<forall>j<m. \<not> run_at s j) \<Longrightarrow> i = m"
  by (meson nat_neq_iff)

lemma re_search_d4_run:
  assumes "run_at s i" and "\<forall>j<i. \<not> run_at s j"
  shows "re_search_d4 s = Some (take 4 (drop i s))"
proof (cases "re_search_d4 s")
  case None
  then show ?thesis using re_search_d4_None assms(1) by blast
next
  case (Some w)
  then obtain m where m: "run_at s m" "\<forall>j<m. \<not> run_at s j" "w = take 4 (drop m s)"
    using re_search_d4_first by blast
  have "i = m" using first_run_unique[OF assms m(1,2)] .
  then show ?thesis using Some m(3) by simp
qed

lemma candidate_year:
  assumes "candidate identifier bi yi row = Some (y, nm, url)"
  shows "\<exists>w. re_search_d4 (get_text_strip (find_all [''td''] row ! yi)) = Some w \<and> y = py_int w"
  using assms by (auto simp: candidate_def Let_def split: if_splits option.splits)

lemma candidate_no_run:
  assumes "re_search_d4 (get_text_strip (find_all [''td''] row ! yi)) = None"
  shows "candidate identifier bi yi row = None"
  using assms by (simp add: candidate_def Let_def)

subsection \<open>The URL found and the dictionary returned\<close>

lemma candidate_url:
  "candidate identifier bi yi row = Some (y, nm, url) \<Longrightarrow> \<exists>h. h \<noteq> [] \<and> url = DOMAIN @ h"
  by (auto simp: candidate_def Let_def split: if_splits option.splits)

lemma scan_rows_found:
  assumes "scan_rows ident bi yi (None, 0, []) rows = (Some url, y, nm)"
  shows "\<exists>row\<in>set rows. candidate ident bi yi row = Some (y, nm, url)"
proof -
  let ?cs = "List.map_filter (candidate ident bi yi) rows"
  have ne: "?cs \<noteq> []" using scan_rows_invariant[of ident bi yi rows] assms by auto
  then obtain k where k: "is_latest ?cs k"
    "scan_rows ident bi yi (None, 0, []) rows = (case ?cs ! k of (y, nm, url) \<Rightarrow> (Some url, y, nm))"
    using scan_rows_invariant[of ident bi yi rows] by blast
  have "?cs ! k = (y, nm, url)" using k(2) assms by (simp split: prod.splits)
  moreover have "?cs ! k \<in> set ?cs" using k(1) by (simp add: is_latest_def)
  ultimately have "(y, nm, url) \<in> set ?cs" by simp
  then show ?thesis by (auto simp: List.map_filter_def)
qed

lemma find_basin_page_url:
  assumes "find_basin_page p identifier = (acts, Inr (Some url, y, nm))"
  shows "url \<noteq> []"
proof -
  obtain bi yi rows where "scan_rows identifier bi yi (None, 0, []) rows = (Some url, y, nm)"
    using assms
    by (auto simp: find_basin_page_def split: sum.splits if_splits prod.splits)
  then obtain row where "candidate identifier bi yi row = Some (y, nm, url)"
    using scan_rows_found by blast
  then show ?thesis using candidate_url by (fastforce simp: DOMAIN_def)
qed

lemma find_annual_report_gsp_null:
  assumes "find_annual_report sp year [(''annual_report_url'', PyNone), (''gsp_url'', PyNone)] = Inr d"
  shows "map_of d ''gsp_url'' = Some PyNone"
  using find_annual_report_shape[OF assms] by auto

lemma find_gsp_frame:
  "map_of (snd (find_gsp p sp docs)) ''annual_report_url'' = map_of docs ''annual_report_url''"
  by (auto simp: find_gsp_def Let_def update_conv' split: option.splits sum.splits)

lemma harvest_pdfs_shape:
  assumes "harvest_pdfs p url year = (acts, Inr d)"
  shows "\<exists>sp a g. detail p url = Inr sp \<and>
           d = [(''annual_report_url'', a), (''gsp_url'', g)] \<and>
           (a = PyNone \<or>
            (\<exists>l h. matched_annual sp year = Some l \<and> l \<in> set (descendants sp) \<and>
                   is_named [''a''] l \<and> get_attr l ''href'' = Some h \<and> a = PyStr (DOMAIN @ h))) \<and>
           (g = PyNone \<or>
            (\<exists>u sub l h. matched_gsp p sp = Some l \<and> subpage p u = Inr sub \<and>
                   l \<in> set (descendants sub) \<and> is_named [''a''] l \<and>
                   get_attr l ''href'' = Some h \<and> g = PyStr (DOMAIN @ h)))"
proof -
  obtain sp where sp: "detail p url = Inr sp"
    using assms by (cases "detail p url") (simp_all add: harvest_pdfs_def)
  obtain d1 where d1: "find_annual_report sp year [(''annual_report_url'', PyNone), (''gsp_url'', PyNone)] = Inr d1"
    using assms sp
    by (cases "find_annual_report sp year [(''annual_report_url'', PyNone), (''gsp_url'', PyNone)]")
       (simp_all add: harvest_pdfs_def)
  obtain acts2 where g: "find_gsp p sp d1 = (acts2, d)"
    using assms sp d1 by (cases "find_gsp p sp d1") (simp add: harvest_pdfs_def)
  obtain a where a: "d1 = [(''annual_report_url'', a), (''gsp_url'', PyNone)]"
    "a = PyNone \<or> (\<exists>l h. matched_annual sp year = Some l \<and> l \<in> set (descendants sp) \<and>
                   is_named [''a''] l \<and> get_attr l ''href'' = Some h \<and> a = PyStr (DOMAIN @ h))"
    using find_annual_report_shape[OF d1] by blast
  obtain g' where g': "d = [(''annual_report_url'', a), (''gsp_url'', g')]"
    "g' = PyNone \<or> (\<exists>u sub l h. matched_gsp p sp = Some l \<and> subpage p u = Inr sub \<and>
                   l \<in> set (descendants sub) \<and> is_named [''a''] l \<and>
                   get_attr l ''href'' = Some h \<and> g' = PyStr (DOMAIN @ h))"
    using find_gsp_shape[of p sp a acts2 d] g a(1) by blast
  show ?thesis using a(2) g' sp by blast
qed

subsection \<open>The container of the section fallback and the link tests\<close>







lemma text_match_wins:
  assumes "find_a_string (wy_pdf_text (''WY_'' @ py_str year)) sp = Some pdf_link"
    and "get_attr pdf_link ''href'' = Some h"
  shows "find_annual_report sp year docs =
           Inr (AList.update ''annual_report_url'' (PyStr (DOMAIN @ h)) docs)"
  using assms by (simp add: find_annual_report_def getitem_href_def)

lemma tag_string_get_text: "tag_string n = Some t \<Longrightarrow> get_text n = t \<or> get_text n = []"
  by (induction n arbitrary: t rule: tag_string.induct) (simp_all add: get_text_def)

lemma gsp_link_without_href:
  assumes "find_a_string gsp_text sp = Some gsp_link"
    and "get_attr gsp_link ''href'' = None \<or> get_attr gsp_link ''href'' = Some []"
  shows "find_gsp p sp docs = ([], docs)"
  using assms by (auto simp: find_gsp_def)

subsection \<open>The header row read and mapped, and a row accepted\<close>

lemma read_headers_cells:
  assumes "header_cells sp = Some hcells"
  shows "read_headers sp = Inr (map lower (map get_text_strip hcells))"
  using assms
  by (auto simp: header_cells_def read_headers_def comp_def split: option.splits)

lemma map_headers_first_match:
  assumes "headers = map lower cells"
  shows "((\<exists>i<length cells. str_in ''basin'' (lower (cells ! i))) \<and>
          (\<exists>j<length cells. str_in ''year'' (lower (cells ! j))) \<longrightarrow>
            (\<exists>bi yi. map_headers headers = Inr (bi, yi) \<and>
               bi < length cells \<and> str_in ''basin'' (lower (cells ! bi)) \<and>
               (\<forall>k<bi. \<not> str_in ''basin'' (lower (cells ! k))) \<and>
               yi < length cells \<and> str_in ''year'' (lower (cells ! yi)) \<and>
               (\<forall>k<yi. \<not> str_in ''year'' (lower (cells ! k))))) \<and>
         (\<not> ((\<exists>i<length cells. str_in ''basin'' (lower (cells ! i))) \<and>
              (\<exists>j<length cells. str_in ''year'' (lower (cells ! j)))) \<longrightarrow>
            map_headers headers = Inl StopIteration)"
proof (intro conjI impI)
  assume both: "(\<exists>i<length cells. str_in ''basin'' (lower (cells ! i))) \<and>
          (\<exists>j<length cells. str_in ''year'' (lower (cells ! j)))"
  have nb: "\<not> (\<exists>e. next_index ''basin'' headers = Inl e)"
    using both assms by (auto simp: next_index_Inl)
  have ny: "\<not> (\<exists>e. next_index ''year'' headers = Inl e)"
    using both assms by (auto simp: next_index_Inl)
  obtain bi where bi: "next_index ''basin'' headers = Inr bi"
    using nb by (cases "next_index ''basin'' headers") auto
  obtain yi where yi: "next_index ''year'' headers = Inr yi"
    using ny by (cases "next_index ''year'' headers") auto
  have m: "map_headers headers = Inr (bi, yi)" using bi yi by (simp add: map_headers_def)
  have pb: "bi < length cells \<and> str_in ''basin'' (lower (cells ! bi)) \<and>
            (\<forall>k<bi. \<not> str_in ''basin'' (lower (cells ! k)))"
    using bi assms by (auto simp: next_index_Inr)
  have py: "yi < length cells \<and> str_in ''year'' (lower (cells ! yi)) \<and>
            (\<forall>k<yi. \<not> str_in ''year'' (lower (cells ! k)))"
    using yi assms by (auto simp: next_index_Inr)
  show "\<exists>bi yi. map_headers headers = Inr (bi, yi) \<and>
               bi < length cells \<and> str_in ''basin'' (lower (cells ! bi)) \<and>
               (\<forall>k<bi. \<not> str_in ''basin'' (lower (cells ! k))) \<and>
               yi < length cells \<and> str_in ''year'' (lower (cells ! yi)) \<and>
               (\<forall>k<yi. \<not> str_in ''year'' (lower (cells ! k)))"
    using m pb py by blast
next
  assume neg: "\<not> ((\<exists>i<length cells. str_in ''basin'' (lower (cells ! i))) \<and>
              (\<exists>j<length cells. str_in ''year'' (lower (cells ! j))))"
  have "next_index ''basin'' headers = Inl StopIteration \<or>
        next_index ''year'' headers = Inl StopIteration"
    using neg assms by (auto simp: next_index_Inl)
  moreover have "next_index ''basin'' headers = Inl StopIteration \<Longrightarrow>
                 map_headers headers = Inl StopIteration"
    by (simp add: map_headers_def)
  moreover have "next_index ''year'' headers = Inl StopIteration \<Longrightarrow>
                 map_headers headers = Inl StopIteration"
    using map_headers_error[of headers]
    by (cases "next_index ''basin'' headers") (simp_all add: map_headers_def)
  ultimately show "map_headers headers = Inl StopIteration" by blast
qed

lemma scan_row_accept:
  assumes "cols = find_all [''td''] row" and "max basin_idx year_idx < length cols"
    and "str_in (lower identifier) (lower (get_text_strip (cols ! basin_idx)))"
    and "re_search_d4 (get_text_strip (cols ! year_idx)) = Some w"
    and "find_tag ''a'' (cols ! basin_idx) = Some link"
    and "get_attr link ''href'' = Some href" and "href \<noteq> []"
  shows "scan_row identifier basin_idx year_idx (best_url, max_year, found_name) row =
           (if max_year \<le> py_int w
            then (Some (DOMAIN @ href), py_int w, get_text_strip (cols ! basin_idx))
            else (best_url, max_year, found_name))"
proof -
  have len: "\<not> length (find_all [''td''] row) \<le> max basin_idx year_idx"
    using assms(1,2) by (simp add: not_le)
  show ?thesis using assms(1,3-7) len by (simp add: scan_row_def Let_def)
qed

subsection \<open>Special strings\<close>

text \<open>A comment inside a cell is no part of the cell's text, so a year that stands only in
  a comment is not a year of the row; as the only child of a tag it is the tag's
  \<^verbatim>\<open>.string\<close>, and \<^verbatim>\<open>find(string=...)\<close> sees it.\<close>

lemma comment_left_out_of_text:
  "get_text_strip (Elem ''td'' [] [Text ''Draft'', Comment ''2019'']) = ''Draft'' \<and>
   re_search_d4 (get_text_strip (Elem ''td'' [] [Text ''Draft'', Comment ''2019''])) = None"
  by code_simp

lemma comment_is_a_string:
  "tag_string (Elem ''a'' [] [Comment ''GSP 2020'']) = Some ''GSP 2020'' \<and>
   find_string annual_header_text (soup [Elem ''div'' [] [Comment ''Annual Report PDF'']]) =
     Some (Comment ''Annual Report PDF'',
           [Elem ''div'' [] [Comment ''Annual Report PDF''],
            soup [Elem ''div'' [] [Comment ''Annual Report PDF'']]])"
  by code_simp

section \<open>The claims\<close>

text \<open>
  C1, as the code has it. For every scanned sequence of table rows, the Basin Locator
  returns the valid candidate row with the maximum parsed year, where a row is valid when
  its basin text contains the identifier, its year text has a four-digit run and the first
  \<^verbatim>\<open>a\<close> tag of its basin cell carries a non-empty \<^verbatim>\<open>href\<close>; when several valid rows share
  the maximal year, the one scanned last is returned (the comparison is \<^verbatim>\<open>>=\<close>). Here
  \<open>cs\<close> are the valid candidates of the scanned rows in scan order, and the row returned is
  the one at an index \<open>k\<close> with \<open>is_latest cs k\<close>.
\<close>

theorem basin_locator_selects_latest:
  assumes "listing p = Inr sp" and "read_headers sp = Inr headers"
    and "map_headers headers = Inr (basin_idx, year_idx)"
    and "filtered p identifier = Inr sp2" and "read_rows sp2 = Inr rows"
    and "cs = List.map_filter (candidate identifier basin_idx year_idx) rows"
    and "cs \<noteq> []"
  shows "\<exists>k. is_latest cs k \<and>
           find_basin_page p identifier =
             ([Goto BASE_URL, Search identifier],
              Inr (case cs ! k of (year, name, url) \<Rightarrow> (Some url, year, name)))"
proof -
  have "\<exists>k. is_latest cs k \<and>
          scan_rows identifier basin_idx year_idx (None, 0, []) rows =
            (case cs ! k of (year, name, url) \<Rightarrow> (Some url, year, name))"
    using scan_rows_invariant assms(6,7) by blast
  then show ?thesis using find_basin_page_scan[OF assms(1-5)] by simp
qed

theorem basin_locator_selects_latest_witness:
  "is_latest (List.map_filter (candidate ''basin a'' 0 2) ex_rows) 2 \<and>
   find_basin_page ex_portal ''basin a'' =
     ([Goto BASE_URL, Search ''basin a''],
      Inr (Some ''https://sgma.water.ca.gov/status/3'', 2024, ''Basin A (1-001)''))"
proof -
  have h1: "listing ex_portal = Inr ex_listing" by (simp add: ex_portal_def)
  have h2: "read_headers ex_listing = Inr [''basin'', ''status'', ''year'']" by code_simp
  have h3: "map_headers [''basin'', ''status'', ''year''] = Inr (0, 2)" by code_simp
  have h4: "filtered ex_portal ''basin a'' = Inr ex_listing" by (simp add: ex_portal_def)
  have h5: "read_rows ex_listing = Inr ex_rows" by code_simp
  have h7: "List.map_filter (candidate ''basin a'' 0 2) ex_rows \<noteq> []" by code_simp
  have l2: "is_latest (List.map_filter (candidate ''basin a'' 0 2) ex_rows) 2" by code_simp
  have v: "List.map_filter (candidate ''basin a'' 0 2) ex_rows ! 2 =
             (2024, ''Basin A (1-001)'', ''https://sgma.water.ca.gov/status/3'')" by code_simp
  from basin_locator_selects_latest[OF h1 h2 h3 h4 h5 refl h7]
  obtain k where k: "is_latest (List.map_filter (candidate ''basin a'' 0 2) ex_rows) k"
    "find_basin_page ex_portal ''basin a'' =
       ([Goto BASE_URL, Search ''basin a''],
        Inr (case List.map_filter (candidate ''basin a'' 0 2) ex_rows ! k of
               (year, name, url) \<Rightarrow> (Some url, year, name)))"
    by blast
  have "k = 2" using is_latest_unique[OF k(1) l2] .
  then show ?thesis using k l2 v by simp
qed

text \<open>C1 as stated fails on a row whose basin cell has a named anchor before its link:
  the row has a hyperlink and the latest year, 2025, but the code looks at the first
  \<^verbatim>\<open>a\<close> tag only, skips the row and returns the row of 2023.\<close>

theorem first_anchor_without_href_counterexample:
  "claimed_candidate_year ''basin a'' 0 2 (ex_rows_anchor ! 0) = Some 2025 \<and>
   claimed_candidate_year ''basin a'' 0 2 (ex_rows_anchor ! 1) = Some 2023 \<and>
   read_rows ex_listing_anchor = Inr ex_rows_anchor \<and>
   find_basin_page ex_portal_anchor ''basin a'' =
     ([Goto BASE_URL, Search ''basin a''],
      Inr (Some ''https://sgma.water.ca.gov/status/1'', 2023, ''Basin A (1-001)''))"
  by code_simp

text \<open>
  C3, as the code has it. A header-role mapping failure makes \<open>get_basin_documents\<close> return the
  empty dictionary, with no exception and no further page action. A failure of the initial
  listing load (the bounded wait for the table included) is not caught: the
  \<^verbatim>\<open>try\<close> of the entry point has a \<^verbatim>\<open>finally\<close> and no \<^verbatim>\<open>except\<close>, so the
  exception reaches the caller after the browser is closed.
\<close>

theorem fatal_conditions:
  "(listing p = Inr sp \<longrightarrow> read_headers sp = Inr headers \<longrightarrow>
      map_headers headers = Inl StopIteration \<longrightarrow>
      get_basin_documents p identifier = ([Goto BASE_URL, Close], Inr [])) \<and>
   (listing p = Inl e \<longrightarrow>
      get_basin_documents p identifier = ([Goto BASE_URL, Close], Inl e))"
  using header_failure_aborts(2) listing_failure_escapes by blast

theorem fatal_conditions_witness:
  "get_basin_documents ex_portal_unlabelled ''basin a'' = ([Goto BASE_URL, Close], Inr []) \<and>
   get_basin_documents ex_portal_timeout ''basin a'' = ([Goto BASE_URL, Close], Inl Timeout)"
proof -
  have h1: "listing ex_portal_unlabelled = Inr ex_listing_unlabelled"
    by (simp add: ex_portal_unlabelled_def)
  have h2: "read_headers ex_listing_unlabelled = Inr [''name'', ''status'', ''year'']" by code_simp
  have h3: "map_headers [''name'', ''status'', ''year''] = Inl StopIteration" by code_simp
  have h4: "listing ex_portal_timeout = Inl Timeout" by (simp add: ex_portal_timeout_def)
  show ?thesis
    using fatal_conditions[of ex_portal_unlabelled ex_listing_unlabelled
        "[''name'', ''status'', ''year'']" "''basin a''"]
      fatal_conditions[of ex_portal_timeout _ _ "''basin a''" Timeout] h1 h2 h3 h4
    by simp
qed

text \<open>C3 as stated fails on a listing load that times out: the result is the
  exception, not the empty dictionary.\<close>

theorem fatal_listing_timeout_counterexample:
  "listing ex_portal_timeout = Inl Timeout \<and>
   get_basin_documents ex_portal_timeout ''5-022.08'' = ([Goto BASE_URL, Close], Inl Timeout)"
  by code_simp

text \<open>
  C4. For the header cells of the listing table, with texts \<open>cells\<close>: the code reads them
  lower-cased (\<open>read_headers\<close>), and when some cell contains \<^verbatim>\<open>basin\<close> and some cell
  contains \<^verbatim>\<open>year\<close>, case-insensitively, each role resolves to the index of the leftmost
  such cell; when either is absent the mapper fails (Python's \<^verbatim>\<open>StopIteration\<close> out of
  \<^verbatim>\<open>next\<close> is the error signalled) and the whole query is aborted: the Basin Locator
  returns its null result after the listing load alone and the entry point returns the
  empty dictionary.
\<close>

theorem header_mapper_first_match:
  assumes "header_cells sp = Some hcells" and "cells = map get_text_strip hcells"
  shows "\<exists>headers. read_headers sp = Inr headers \<and>
         ((\<exists>i<length cells. str_in ''basin'' (lower (cells ! i))) \<and>
          (\<exists>j<length cells. str_in ''year'' (lower (cells ! j))) \<longrightarrow>
            (\<exists>bi yi. map_headers headers = Inr (bi, yi) \<and>
               bi < length cells \<and> str_in ''basin'' (lower (cells ! bi)) \<and>
               (\<forall>k<bi. \<not> str_in ''basin'' (lower (cells ! k))) \<and>
               yi < length cells \<and> str_in ''year'' (lower (cells ! yi)) \<and>
               (\<forall>k<yi. \<not> str_in ''year'' (lower (cells ! k))))) \<and>
         (\<not> ((\<exists>i<length cells. str_in ''basin'' (lower (cells ! i))) \<and>
              (\<exists>j<length cells. str_in ''year'' (lower (cells ! j)))) \<longrightarrow>
            map_headers headers = Inl StopIteration \<and>
            (\<forall>p identifier. listing p = Inr sp \<longrightarrow>
               find_basin_page p identifier = ([Goto BASE_URL], Inr (None, 0, [])) \<and>
               get_basin_documents p identifier = ([Goto BASE_URL, Close], Inr [])))"
proof -
  have r: "read_headers sp = Inr (map lower cells)"
    using assms
    by (auto simp: header_cells_def read_headers_def comp_def split: option.splits)
  have ab: "map_headers (map lower cells) = Inl StopIteration \<Longrightarrow>
            (\<forall>p identifier. listing p = Inr sp \<longrightarrow>
               find_basin_page p identifier = ([Goto BASE_URL], Inr (None, 0, [])) \<and>
               get_basin_documents p identifier = ([Goto BASE_URL, Close], Inr []))"
    using r by (simp add: find_basin_page_def get_basin_documents_def)
  show ?thesis
    using r ab map_headers_first_match[OF refl, of cells]
    by (intro exI[of _ "map lower cells"]) blast
qed

theorem header_mapper_first_match_witness:
  "read_headers ex_listing_reordered =
     Inr [''status'', ''reporting year'', ''basin/subbasin'', ''basin code''] \<and>
   map_headers [''status'', ''reporting year'', ''basin/subbasin'', ''basin code''] = Inr (2, 1) \<and>
   read_headers ex_listing_unlabelled = Inr [''name'', ''status'', ''year''] \<and>
   map_headers [''name'', ''status'', ''year''] = Inl StopIteration \<and>
   get_basin_documents ex_portal_unlabelled ''basin a'' = ([Goto BASE_URL, Close], Inr [])"
proof -
  let ?hc = "map th_cell [''Status'', ''Reporting YEAR'', ''Basin/Subbasin'', ''BASIN Code'']"
  let ?cells = "[''Status'', ''Reporting YEAR'', ''Basin/Subbasin'', ''BASIN Code'']"
  have h1: "header_cells ex_listing_reordered = Some ?hc" by code_simp
  have h2: "?cells = map get_text_strip ?hc" by code_simp
  have b: "str_in ''basin'' (lower (?cells ! 2))" by code_simp
  have y: "str_in ''year'' (lower (?cells ! 1))" by code_simp
  have pre: "(\<exists>i<length ?cells. str_in ''basin'' (lower (?cells ! i))) \<and>
             (\<exists>j<length ?cells. str_in ''year'' (lower (?cells ! j)))"
    using b y by (intro conjI exI[of _ 2] exI[of _ 1]) simp_all
  obtain headers bi yi where g: "read_headers ex_listing_reordered = Inr headers"
    "map_headers headers = Inr (bi, yi)"
    using header_mapper_first_match[OF h1 h2] pre by blast
  have v1: "read_headers ex_listing_reordered =
              Inr [''status'', ''reporting year'', ''basin/subbasin'', ''basin code'']" by code_simp
  have v2: "map_headers [''status'', ''reporting year'', ''basin/subbasin'', ''basin code''] = Inr (2, 1)"
    by code_simp
  let ?bc = "map th_cell [''Name'', ''Status'', ''Year'']"
  let ?bad = "[''Name'', ''Status'', ''Year'']"
  have k1: "header_cells ex_listing_unlabelled = Some ?bc" by code_simp
  have k2: "?bad = map get_text_strip ?bc" by code_simp
  have nb: "\<not> str_in ''basin'' (lower (?bad ! i))" if "i < length ?bad" for i
  proof -
    have "list_all (\<lambda>c. \<not> str_in ''basin'' (lower c)) ?bad" by code_simp
    then show ?thesis using that by (simp add: list_all_length)
  qed
  have neg: "\<not> ((\<exists>i<length ?bad. str_in ''basin'' (lower (?bad ! i))) \<and>
              (\<exists>j<length ?bad. str_in ''year'' (lower (?bad ! j))))"
    using nb by blast
  have l: "listing ex_portal_unlabelled = Inr ex_listing_unlabelled"
    by (simp add: ex_portal_unlabelled_def)
  obtain hs where f: "read_headers ex_listing_unlabelled = Inr hs"
    "map_headers hs = Inl StopIteration"
    "get_basin_documents ex_portal_unlabelled ''basin a'' = ([Goto BASE_URL, Close], Inr [])"
    using header_mapper_first_match[OF k1 k2] neg l by blast
  have v3: "read_headers ex_listing_unlabelled = Inr [''name'', ''status'', ''year'']" by code_simp
  show ?thesis using g v1 v2 f v3 by simp
qed

text \<open>
  C6. For the text of a row's year cell: the year parsed is the decimal value of the
  leftmost run of four digits, wherever it stands in the text (so \<^verbatim>\<open>2024 (Draft)\<close> gives
  2024), and the loop body takes that value as the row's year: on a row that passes the
  other checks it compares that value with \<^verbatim>\<open>max_year\<close> and stores it. A text with no run
  of four digits excludes the row: it is no candidate and the loop state is unchanged.
\<close>

theorem year_is_first_four_digit_run:
  assumes "cols = find_all [''td''] row" and "text = get_text_strip (cols ! year_idx)"
  shows "(\<forall>i. run_at text i \<and> (\<forall>j<i. \<not> run_at text j) \<longrightarrow>
            re_search_d4 text = Some (take 4 (drop i text)) \<and>
            py_int (take 4 (drop i text)) =
              1000 * digit_val (text ! i) + 100 * digit_val (text ! (i + 1)) +
              10 * digit_val (text ! (i + 2)) + digit_val (text ! (i + 3)) \<and>
            (\<forall>link href best_url max_year found_name.
               max basin_idx year_idx < length cols \<and>
               str_in (lower identifier) (lower (get_text_strip (cols ! basin_idx))) \<and>
               find_tag ''a'' (cols ! basin_idx) = Some link \<and>
               get_attr link ''href'' = Some href \<and> href \<noteq> [] \<longrightarrow>
               scan_row identifier basin_idx year_idx (best_url, max_year, found_name) row =
                 (if max_year \<le> py_int (take 4 (drop i text))
                  then (Some (DOMAIN @ href), py_int (take 4 (drop i text)),
                        get_text_strip (cols ! basin_idx))
                  else (best_url, max_year, found_name)))) \<and>
         (\<forall>y nm url. candidate identifier basin_idx year_idx row = Some (y, nm, url) \<longrightarrow>
            (\<exists>i. run_at text i \<and> (\<forall>j<i. \<not> run_at text j) \<and>
                 y = py_int (take 4 (drop i text)))) \<and>
         ((\<forall>i. \<not> run_at text i) \<longrightarrow>
            re_search_d4 text = None \<and>
            candidate identifier basin_idx year_idx row = None \<and>
            scan_row identifier basin_idx year_idx bst row = bst)"
proof (intro conjI allI impI)
  fix i assume a: "run_at text i \<and> (\<forall>j<i. \<not> run_at text j)"
  then show s: "re_search_d4 text = Some (take 4 (drop i text))" using re_search_d4_run by blast
  show "py_int (take 4 (drop i text)) =
              1000 * digit_val (text ! i) + 100 * digit_val (text ! (i + 1)) +
              10 * digit_val (text ! (i + 2)) + digit_val (text ! (i + 3))"
    using a py_int_window by blast
  fix link href best_url max_year found_name
  assume c: "max basin_idx year_idx < length cols \<and>
               str_in (lower identifier) (lower (get_text_strip (cols ! basin_idx))) \<and>
               find_tag ''a'' (cols ! basin_idx) = Some link \<and>
               get_attr link ''href'' = Some href \<and> href \<noteq> []"
  have s': "re_search_d4 (get_text_strip (cols ! year_idx)) = Some (take 4 (drop i text))"
    using s assms(2) by simp
  have len: "\<not> length (find_all [''td''] row) \<le> max basin_idx year_idx"
    using c assms(1) by (simp add: not_le)
  show "scan_row identifier basin_idx year_idx (best_url, max_year, found_name) row =
                 (if max_year \<le> py_int (take 4 (drop i text))
                  then (Some (DOMAIN @ href), py_int (take 4 (drop i text)),
                        get_text_strip (cols ! basin_idx))
                  else (best_url, max_year, found_name))"
    using assms(1) c s' len by (simp add: scan_row_def Let_def)
next
  fix y nm url assume "candidate identifier basin_idx year_idx row = Some (y, nm, url)"
  then obtain w where w: "re_search_d4 text = Some w" "y = py_int w"
    using candidate_year assms by blast
  then show "\<exists>i. run_at text i \<and> (\<forall>j<i. \<not> run_at text j) \<and> y = py_int (take 4 (drop i text))"
    using re_search_d4_first[OF w(1)] by blast
next
  assume n: "\<forall>i. \<not> run_at text i"
  show none: "re_search_d4 text = None"
  proof (cases "re_search_d4 text")
    case (Some w)
    then show ?thesis using re_search_d4_first n by blast
  qed simp
  show c: "candidate identifier basin_idx year_idx row = None"
    using none assms candidate_no_run by simp
  show "scan_row identifier basin_idx year_idx bst row = bst"
    using none assms by (simp add: scan_row_def Let_def)
qed

theorem year_is_first_four_digit_run_witness:
  "re_search_d4 ''Report 2024 (Draft)'' = Some ''2024'' \<and>
   scan_row ''basin a'' 0 2 (None, 0, []) ex_row_draft =
     (Some ''https://sgma.water.ca.gov/status/2'', 2024, ''Basin A (1-001)'') \<and>
   candidate ''basin a'' 0 2 ex_row_pending = None \<and>
   scan_row ''basin a'' 0 2 (None, 0, []) ex_row_pending = (None, 0, [])"
proof -
  let ?t = "''Report 2024 (Draft)''"
  let ?cols = "find_all [''td''] ex_row_draft"
  let ?link = "Elem ''a'' [(''href'', ''/status/2'')] [Text ''Basin A (1-001)'']"
  have t1: "?t = get_text_strip (?cols ! 2)" by code_simp
  have r7: "run_at ?t 7" by code_simp
  have nr: "\<not> run_at ?t j" if "j < 7" for j
  proof -
    have "list_all (\<lambda>j. \<not> run_at ?t j) [0..<7]" by code_simp
    then show ?thesis using that by (simp add: list_all_iff)
  qed
  have first: "run_at ?t 7 \<and> (\<forall>j<7. \<not> run_at ?t j)" using r7 nr by blast
  have c1: "max 0 2 < length ?cols" by code_simp
  have c2: "str_in (lower ''basin a'') (lower (get_text_strip (?cols ! 0)))" by code_simp
  have c3: "find_tag ''a'' (?cols ! 0) = Some ?link" by code_simp
  have c4: "get_attr ?link ''href'' = Some ''/status/2''" by simp
  have c5: "''/status/2'' \<noteq> []" by simp
  have cond: "max 0 2 < length ?cols \<and>
              str_in (lower ''basin a'') (lower (get_text_strip (?cols ! 0))) \<and>
              find_tag ''a'' (?cols ! 0) = Some ?link \<and>
              get_attr ?link ''href'' = Some ''/status/2'' \<and> ''/status/2'' \<noteq> []"
    using c1 c2 c3 c4 c5 by blast
  have s1: "re_search_d4 ?t = Some (take 4 (drop 7 ?t))"
    and acc: "scan_row ''basin a'' 0 2 (None, 0, []) ex_row_draft =
                (if 0 \<le> py_int (take 4 (drop 7 ?t))
                 then (Some (DOMAIN @ ''/status/2''), py_int (take 4 (drop 7 ?t)),
                       get_text_strip (?cols ! 0))
                 else (None, 0, []))"
    using year_is_first_four_digit_run[OF refl t1, where basin_idx = 0] first cond
    by blast+
  have v1: "py_int (take 4 (drop 7 ?t)) = 2024" by code_simp
  have v2: "get_text_strip (?cols ! 0) = ''Basin A (1-001)''" by code_simp
  have a1: "scan_row ''basin a'' 0 2 (None, 0, []) ex_row_draft =
     (Some ''https://sgma.water.ca.gov/status/2'', 2024, ''Basin A (1-001)'')"
    using acc v1 v2 by (simp add: DOMAIN_def)
  have ev: "scan_row ''basin a'' 0 2 (None, 0, []) ex_row_draft =
     (Some ''https://sgma.water.ca.gov/status/2'', 2024, ''Basin A (1-001)'')"
    by code_simp
  have t2: "''FY 24, pending'' = get_text_strip (find_all [''td''] ex_row_pending ! 2)" by code_simp
  have no: "\<not> run_at ''FY 24, pending'' i" for i
  proof (cases "i < 14")
    case True
    have "list_all (\<lambda>j. \<not> run_at ''FY 24, pending'' j) [0..<14]" by code_simp
    then show ?thesis using True by (simp add: list_all_iff)
  next
    case False
    then show ?thesis by (simp add: run_at_def)
  qed
  have s2: "candidate ''basin a'' 0 2 ex_row_pending = None \<and>
            scan_row ''basin a'' 0 2 (None, 0, []) ex_row_pending = (None, 0, [])"
    using year_is_first_four_digit_run[OF refl t2, where basin_idx = 0 and bst = "(None, 0, [])"] no
    by blast
  show ?thesis using s1 a1 ev s2 by simp
qed

text \<open>
  C7. When the filtered table has no valid candidate row, \<open>find_basin_page\<close> returns the
  null URL, year 0 and the empty name, with no exception, and \<open>get_basin_documents\<close>
  returns the empty dictionary.
\<close>

theorem no_candidate_not_found:
  assumes "listing p = Inr sp" and "read_headers sp = Inr headers"
    and "map_headers headers = Inr (basin_idx, year_idx)"
    and "filtered p identifier = Inr sp2" and "read_rows sp2 = Inr rows"
    and "\<forall>row\<in>set rows. candidate identifier basin_idx year_idx row = None"
  shows "find_basin_page p identifier = ([Goto BASE_URL, Search identifier], Inr (None, 0, [])) \<and>
         get_basin_documents p identifier = ([Goto BASE_URL, Search identifier, Close], Inr [])"
proof -
  have "List.map_filter (candidate identifier basin_idx year_idx) rows = []"
    using assms(6) by (auto simp: List.map_filter_def filter_empty_conv)
  then have "scan_rows identifier basin_idx year_idx (None, 0, []) rows = (None, 0, [])"
    using scan_rows_invariant by blast
  then have f: "find_basin_page p identifier = ([Goto BASE_URL, Search identifier], Inr (None, 0, []))"
    using find_basin_page_scan[OF assms(1-5)] by simp
  then show ?thesis by (simp add: get_basin_documents_def)
qed

theorem no_candidate_not_found_witness:
  "find_basin_page ex_portal ''Zeta'' = ([Goto BASE_URL, Search ''Zeta''], Inr (None, 0, [])) \<and>
   get_basin_documents ex_portal ''Zeta'' = ([Goto BASE_URL, Search ''Zeta'', Close], Inr [])"
proof -
  have h1: "listing ex_portal = Inr ex_listing" by (simp add: ex_portal_def)
  have h2: "read_headers ex_listing = Inr [''basin'', ''status'', ''year'']" by code_simp
  have h3: "map_headers [''basin'', ''status'', ''year''] = Inr (0, 2)" by code_simp
  have h4: "filtered ex_portal ''Zeta'' = Inr ex_listing" by (simp add: ex_portal_def)
  have h5: "read_rows ex_listing = Inr ex_rows" by code_simp
  have h6: "\<forall>row\<in>set ex_rows. candidate ''Zeta'' 0 2 row = None" by code_simp
  show ?thesis using no_candidate_not_found[OF h1 h2 h3 h4 h5 h6] .
qed

text \<open>
  C5. When the hop to the GSP sub-page fails (its navigation or parse raises), \<open>harvest_pdfs\<close>
  still returns: the dictionary is the one the annual-report step left, so
  \<^verbatim>\<open>annual_report_url\<close> is as it was before the hop and \<^verbatim>\<open>gsp_url\<close> is null. Whatever
  the sub-page does, the \<^verbatim>\<open>annual_report_url\<close> returned for the same detail page is the same.
\<close>

theorem gsp_hop_failure_leaves_annual_report:
  assumes "detail p url = Inr sp"
    and "find_annual_report sp year [(''annual_report_url'', PyNone), (''gsp_url'', PyNone)] = Inr docs1"
    and "find_a_string gsp_text sp = Some gsp_link"
    and "get_attr gsp_link ''href'' = Some href" and "href \<noteq> []"
    and "subpage p (DOMAIN @ href) = Inl e"
  shows "harvest_pdfs p url year = ([Goto url, Goto (DOMAIN @ href)], Inr docs1) \<and>
         map_of docs1 ''gsp_url'' = Some PyNone \<and>
         (\<forall>q::portal. detail q url = Inr sp \<longrightarrow>
            (\<exists>acts d. harvest_pdfs q url year = (acts, Inr d) \<and>
               map_of d ''annual_report_url'' = map_of docs1 ''annual_report_url''))"
proof (intro conjI allI impI)
  have g: "find_gsp p sp docs1 = ([Goto (DOMAIN @ href)], docs1)"
    using assms(3-6) by (simp add: find_gsp_def)
  show "harvest_pdfs p url year = ([Goto url, Goto (DOMAIN @ href)], Inr docs1)"
    using assms(1,2) g by (simp add: harvest_pdfs_def)
  show "map_of docs1 ''gsp_url'' = Some PyNone"
    using assms(2) by (rule find_annual_report_gsp_null)
next
  fix q :: portal assume q: "detail q url = Inr sp"
  obtain acts d where gd: "find_gsp q sp docs1 = (acts, d)" by (cases "find_gsp q sp docs1")
  have "harvest_pdfs q url year = (Goto url # acts, Inr d)"
    using q assms(2) gd by (simp add: harvest_pdfs_def)
  moreover have "map_of d ''annual_report_url'' = map_of docs1 ''annual_report_url''"
    using find_gsp_frame[of q sp docs1] gd by simp
  ultimately show "\<exists>acts d. harvest_pdfs q url year = (acts, Inr d) \<and>
               map_of d ''annual_report_url'' = map_of docs1 ''annual_report_url''"
    by blast
qed

theorem gsp_hop_failure_leaves_annual_report_witness:
  "harvest_pdfs ex_portal_unreachable ''https://sgma.water.ca.gov/status/3'' 2024 =
     ([Goto ''https://sgma.water.ca.gov/status/3'', Goto ''https://sgma.water.ca.gov/gsp/7''],
      Inr [(''annual_report_url'', PyStr ''https://sgma.water.ca.gov/document/555''),
           (''gsp_url'', PyNone)]) \<and>
   (\<exists>acts d. harvest_pdfs ex_portal ''https://sgma.water.ca.gov/status/3'' 2024 = (acts, Inr d) \<and>
      map_of d ''annual_report_url'' = Some (PyStr ''https://sgma.water.ca.gov/document/555''))"
proof -
  let ?u = "''https://sgma.water.ca.gov/status/3''"
  let ?d1 = "[(''annual_report_url'', PyStr ''https://sgma.water.ca.gov/document/555''),
              (''gsp_url'', PyNone)]"
  let ?l = "Elem ''a'' [(''href'', ''/gsp/7'')] [Text ''GSP 2022'']"
  have h1: "detail ex_portal_unreachable ?u = Inr ex_detail" by (simp add: ex_portal_unreachable_def)
  have h2: "find_annual_report ex_detail 2024 [(''annual_report_url'', PyNone), (''gsp_url'', PyNone)] = Inr ?d1"
    by code_simp
  have h3: "find_a_string gsp_text ex_detail = Some ?l" by code_simp
  have h4: "get_attr ?l ''href'' = Some ''/gsp/7''" by simp
  have h5: "''/gsp/7'' \<noteq> []" by simp
  have h6: "subpage ex_portal_unreachable (DOMAIN @ ''/gsp/7'') = Inl Timeout"
    by (simp add: ex_portal_unreachable_def)
  have h7: "detail ex_portal ?u = Inr ex_detail" by (simp add: ex_portal_def)
  have dom: "DOMAIN @ ''/gsp/7'' = ''https://sgma.water.ca.gov/gsp/7''" by (simp add: DOMAIN_def)
  show ?thesis
    using gsp_hop_failure_leaves_annual_report[OF h1 h2 h3 h4 h5 h6] h7 dom by simp
qed

text \<open>
  C10. When a basin match is found, the dictionary \<open>get_basin_documents\<close> returns has exactly
  the keys \<^verbatim>\<open>annual_report_url\<close>, \<^verbatim>\<open>gsp_url\<close>, \<^verbatim>\<open>basin_name\<close>, \<^verbatim>\<open>latest_year\<close>, and each of
  the two URLs is null or the domain followed by the \<^verbatim>\<open>href\<close>, unchanged, of the anchor
  matched: an \<^verbatim>\<open>a\<close> tag of the detail page, of the sub-page for \<^verbatim>\<open>gsp_url\<close>.
\<close>

theorem result_dictionary_shape:
  assumes "find_basin_page p identifier = (acts1, Inr (Some url, year, name))"
    and "get_basin_documents p identifier = (acts, Inr d)"
  shows "\<exists>sp a g. detail p url = Inr sp \<and>
           d = [(''annual_report_url'', a), (''gsp_url'', g),
                (''basin_name'', PyStr name), (''latest_year'', PyInt year)] \<and>
           (a = PyNone \<or>
            (\<exists>l h. matched_annual sp year = Some l \<and> l \<in> set (descendants sp) \<and>
                   is_named [''a''] l \<and> get_attr l ''href'' = Some h \<and> a = PyStr (DOMAIN @ h))) \<and>
           (g = PyNone \<or>
            (\<exists>u sub l h. matched_gsp p sp = Some l \<and> subpage p u = Inr sub \<and>
                   l \<in> set (descendants sub) \<and> is_named [''a''] l \<and>
                   get_attr l ''href'' = Some h \<and> g = PyStr (DOMAIN @ h)))"
proof -
  have u: "url \<noteq> []" using assms(1) by (rule find_basin_page_url)
  obtain acts2 documents where h: "harvest_pdfs p url year = (acts2, Inr documents)"
    and d: "d = AList.update ''latest_year'' (PyInt year)
                  (AList.update ''basin_name'' (PyStr name) documents)"
    using assms u
    by (cases "harvest_pdfs p url year"; cases "snd (harvest_pdfs p url year)")
       (auto simp: get_basin_documents_def)
  obtain sp a g where ag: "detail p url = Inr sp"
    "documents = [(''annual_report_url'', a), (''gsp_url'', g)]"
    "a = PyNone \<or> (\<exists>l h. matched_annual sp year = Some l \<and> l \<in> set (descendants sp) \<and>
                   is_named [''a''] l \<and> get_attr l ''href'' = Some h \<and> a = PyStr (DOMAIN @ h))"
    "g = PyNone \<or> (\<exists>u sub l h. matched_gsp p sp = Some l \<and> subpage p u = Inr sub \<and>
                   l \<in> set (descendants sub) \<and> is_named [''a''] l \<and>
                   get_attr l ''href'' = Some h \<and> g = PyStr (DOMAIN @ h))"
    using harvest_pdfs_shape[OF h] by blast
  have "d = [(''annual_report_url'', a), (''gsp_url'', g),
             (''basin_name'', PyStr name), (''latest_year'', PyInt year)]"
    using d ag(2) by simp
  then show ?thesis using ag(1,3,4) by blast
qed

theorem result_dictionary_shape_witness:
  "get_basin_documents ex_portal ''basin a'' =
     ([Goto BASE_URL, Search ''basin a'', Goto ''https://sgma.water.ca.gov/status/3'',
       Goto ''https://sgma.water.ca.gov/gsp/7'', Close],
      Inr [(''annual_report_url'', PyStr ''https://sgma.water.ca.gov/document/555''),
           (''gsp_url'', PyStr ''https://sgma.water.ca.gov/files/plan.PDF''),
           (''basin_name'', PyStr ''Basin A (1-001)''), (''latest_year'', PyInt 2024)]) \<and>
   (\<exists>l. matched_annual ex_detail 2024 = Some l \<and> get_attr l ''href'' = Some ''/document/555'') \<and>
   (\<exists>l. matched_gsp ex_portal ex_detail = Some l \<and> get_attr l ''href'' = Some ''/files/plan.PDF'')"
proof -
  have h1: "find_basin_page ex_portal ''basin a'' =
     ([Goto BASE_URL, Search ''basin a''],
      Inr (Some ''https://sgma.water.ca.gov/status/3'', 2024, ''Basin A (1-001)''))"
    by code_simp
  have h2: "get_basin_documents ex_portal ''basin a'' =
     ([Goto BASE_URL, Search ''basin a'', Goto ''https://sgma.water.ca.gov/status/3'',
       Goto ''https://sgma.water.ca.gov/gsp/7'', Close],
      Inr [(''annual_report_url'', PyStr ''https://sgma.water.ca.gov/document/555''),
           (''gsp_url'', PyStr ''https://sgma.water.ca.gov/files/plan.PDF''),
           (''basin_name'', PyStr ''Basin A (1-001)''), (''latest_year'', PyInt 2024)])"
    by code_simp
  from result_dictionary_shape[OF h1 h2]
  obtain sp a g where r: "detail ex_portal ''https://sgma.water.ca.gov/status/3'' = Inr sp"
    "[(''annual_report_url'', PyStr ''https://sgma.water.ca.gov/document/555''),
      (''gsp_url'', PyStr ''https://sgma.water.ca.gov/files/plan.PDF''),
      (''basin_name'', PyStr ''Basin A (1-001)''), (''latest_year'', PyInt 2024)] =
     [(''annual_report_url'', a), (''gsp_url'', g),
      (''basin_name'', PyStr ''Basin A (1-001)''), (''latest_year'', PyInt 2024)]"
    "a = PyNone \<or> (\<exists>l h. matched_annual sp 2024 = Some l \<and> l \<in> set (descendants sp) \<and>
                   is_named [''a''] l \<and> get_attr l ''href'' = Some h \<and> a = PyStr (DOMAIN @ h))"
    "g = PyNone \<or> (\<exists>u sub l h. matched_gsp ex_portal sp = Some l \<and> subpage ex_portal u = Inr sub \<and>
                   l \<in> set (descendants sub) \<and> is_named [''a''] l \<and>
                   get_attr l ''href'' = Some h \<and> g = PyStr (DOMAIN @ h))"
    by blast
  have sp: "sp = ex_detail" using r(1) by (simp add: ex_portal_def)
  have av: "a = PyStr ''https://sgma.water.ca.gov/document/555''"
    and gv: "g = PyStr ''https://sgma.water.ca.gov/files/plan.PDF''"
    using r(2) by simp_all
  have a: "\<exists>l. matched_annual ex_detail 2024 = Some l \<and> get_attr l ''href'' = Some ''/document/555''"
    using r(3) av sp by (auto simp: DOMAIN_def)
  have g: "\<exists>l. matched_gsp ex_portal ex_detail = Some l \<and> get_attr l ''href'' = Some ''/files/plan.PDF''"
    using r(4) gv sp by (auto simp: DOMAIN_def)
  show ?thesis using h2 a g by simp
qed




text \<open>
  C2 on a report link whose text follows an icon tag. The anchor's visible text contains
  \<^verbatim>\<open>WY_2024\<close> and \<^verbatim>\<open>.pdf\<close>, and it is the first such anchor of the page, so the claim
  makes it the result. The code hands the test the anchor's \<^verbatim>\<open>.string\<close>, which is \<open>None\<close>
  for an anchor with two children: Strategy 1 finds nothing, Strategy 2 has no section to
  look at, and \<^verbatim>\<open>annual_report_url\<close> is null.
\<close>

theorem text_pattern_misses_link_with_markup:
  "first_anchor (wy_pdf_visible (''WY_'' @ py_str 2024)) ex_detail_icon = Some ex_icon_link \<and>
   get_text ex_icon_link = '' 3-001_WY_2024.pdf'' \<and>
   get_attr ex_icon_link ''href'' = Some ''/document/555'' \<and>
   tag_string ex_icon_link = None \<and>
   harvest_pdfs ex_portal_icon ''https://sgma.water.ca.gov/status/3'' 2024 =
     ([Goto ''https://sgma.water.ca.gov/status/3''],
      Inr [(''annual_report_url'', PyNone), (''gsp_url'', PyNone)])"
  by code_simp

text \<open>
  C9 on a page whose first anchor with visible text containing \<^verbatim>\<open>GSP\<close> and \<^verbatim>\<open>20\<close> has no
  \<^verbatim>\<open>href\<close> but has markup inside. The claim gives a null \<^verbatim>\<open>gsp_url\<close> and no navigation.
  The code's test sees \<open>None\<close> for that anchor, takes the next matching anchor, navigates to
  its sub-page and returns the PDF found there.
\<close>

theorem gsp_skips_link_with_markup:
  "first_anchor gsp_visible ex_detail_gsp = Some ex_gsp_heading \<and>
   get_attr ex_gsp_heading ''href'' = None \<and>
   tag_string ex_gsp_heading = None \<and>
   find_gsp ex_portal_gsp ex_detail_gsp [(''annual_report_url'', PyNone), (''gsp_url'', PyNone)] =
     ([Goto ''https://sgma.water.ca.gov/gsp/7''],
      [(''annual_report_url'', PyNone),
       (''gsp_url'', PyStr ''https://sgma.water.ca.gov/files/plan.PDF'')])"
  by code_simp

end
